theory Spec2Isabelle
  imports Complex_Main "HOL-Library.Stream"
begin

section \<open>Data model (types.ts)\<close>

text \<open>
  The simulation step of the side-scrolling game: \<^verbatim>\<open>update\<close>, \<^verbatim>\<open>handlePlayerDeath\<close>,
  \<^verbatim>\<open>createParticles\<close>, \<^verbatim>\<open>checkCollision\<close> and \<^verbatim>\<open>initLevel\<close> of
  \<^verbatim>\<open>components/GameCanvas.tsx\<close>, over the entity records of \<^verbatim>\<open>types.ts\<close>.

  Numbers. Positions, sizes and velocities are TypeScript \<^verbatim>\<open>number\<close>s; they are modelled
  as \<^typ>\<open>real\<close>, so every statement below is about exact arithmetic, not about IEEE
  rounding. The counters \<^verbatim>\<open>hp\<close>, \<^verbatim>\<open>score\<close>, \<^verbatim>\<open>life\<close>, \<^verbatim>\<open>shootCooldown\<close>,
  \<^verbatim>\<open>invincibleTimer\<close>, \<^verbatim>\<open>facingVertical\<close> and the tick are only ever assigned integer
  literals and changed by \<^verbatim>\<open>++\<close>, \<^verbatim>\<open>--\<close> or by adding an integer literal, so they are
  \<^typ>\<open>int\<close>.

  Fields. \<^verbatim>\<open>color\<close>, \<^verbatim>\<open>state\<close> and \<^verbatim>\<open>id\<close> are written once and never read by the
  simulation; they are left out. \<^verbatim>\<open>Player\<close> and \<^verbatim>\<open>Enemy\<close> both declare \<^verbatim>\<open>direction\<close>,
  \<^verbatim>\<open>shootCooldown\<close> and \<^verbatim>\<open>hp\<close>; the record \<open>Fighter\<close> holds these three so that both keep
  the source's field names. The \<^verbatim>\<open>type\<close> field of an enemy is \<open>etype\<close>, that of a platform
  \<open>ptype\<close>. Particles are untyped objects in the source; their fields carry the prefix
  \<open>p_\<close>.
\<close>

datatype Direction = Right | Left

fun dirValue :: "Direction \<Rightarrow> real" where
  "dirValue Right = 1"
| "dirValue Left = -1"

datatype GameState = MENU | PLAYING | GAME_OVER | VICTORY

datatype Owner = OwnerPlayer | OwnerEnemy

datatype EnemyType = Runner | Turret | Boss

datatype PlatformType = Solid | PassThrough

record Box =
  x :: real
  y :: real
  width :: real
  height :: real

record Entity = Box +
  vx :: real
  vy :: real
  isDead :: bool

record Bullet = Entity +
  owner :: Owner
  life :: int

record Fighter = Entity +
  direction :: Direction
  shootCooldown :: int
  hp :: int

record Enemy = Fighter +
  etype :: EnemyType

record Player = Fighter +
  isGrounded :: bool
  isCrouching :: bool
  invincibleTimer :: int
  score :: int
  facingVertical :: int

record Platform = Box +
  ptype :: PlatformType

record Particle =
  p_x :: real
  p_y :: real
  p_vx :: real
  p_vy :: real
  p_life :: int

record InputState =
  left :: bool
  right :: bool
  up :: bool
  down :: bool
  jump :: bool
  shoot :: bool

text \<open>
  The module \<^verbatim>\<open>../constants\<close> is not part of the sources at hand. Its values are a
  parameter of every function that reads one.
\<close>

record Constants =
  CANVAS_WIDTH :: real
  CANVAS_HEIGHT :: real
  GRAVITY :: real
  PLAYER_SPEED :: real
  JUMP_FORCE :: real
  BULLET_SPEED :: real
  SHOOT_COOLDOWN :: int
  CAMERA_OFFSET_X :: real
  ENEMY_SPEED :: real
  LEVEL_LENGTH :: real

text \<open>
  The three callbacks the component receives (\<^verbatim>\<open>setGameState\<close>, \<^verbatim>\<open>setScore\<close>,
  \<^verbatim>\<open>setLives\<close>) are effects on the embedding application. Each call is appended to the
  log \<open>events\<close>. The \<^verbatim>\<open>gameState\<close> that \<^verbatim>\<open>update\<close> reads is the property captured when
  the callback was built: it does not change while one step runs, and is an argument.
\<close>

datatype Event = SetGameState GameState | SetScore int | SetLives int

text \<open>
  The mutable references of the component: \<^verbatim>\<open>playerRef\<close>, \<^verbatim>\<open>bulletsRef\<close>,
  \<^verbatim>\<open>enemiesRef\<close>, \<^verbatim>\<open>particlesRef\<close>, \<^verbatim>\<open>cameraRef\<close> (its only field \<^verbatim>\<open>x\<close>),
  \<^verbatim>\<open>platformsRef\<close>, \<^verbatim>\<open>tickRef\<close>. \<open>rnd\<close> is the supply of the values that the
  successive calls of \<^verbatim>\<open>Math.random()\<close> return.
\<close>

record World =
  player :: Player
  bullets :: "Bullet list"
  enemies :: "Enemy list"
  particles :: "Particle list"
  camera :: real
  platforms :: "Platform list"
  tick :: int
  events :: "Event list"
  rnd :: "real stream"

section \<open>Helpers of the component\<close>

text \<open>\<^verbatim>\<open>checkCollision(r1, r2)\<close>: overlap of two axis-aligned boxes.\<close>

definition checkCollision :: "'a Box_scheme \<Rightarrow> 'b Box_scheme \<Rightarrow> bool" where
  "checkCollision r1 r2 \<longleftrightarrow>
     x r1 < x r2 + width r2 \<and>
     x r1 + width r1 > x r2 \<and>
     y r1 < y r2 + height r2 \<and>
     y r1 + height r1 > y r2"

text \<open>
  \<^verbatim>\<open>createParticles(x, y, color)\<close>: eight pushes, each drawing \<^verbatim>\<open>vx\<close> and then \<^verbatim>\<open>vy\<close>
  from \<^verbatim>\<open>Math.random()\<close>. The first argument of the loop counts the pushes left.
\<close>

fun createParticlesLoop :: "nat \<Rightarrow> real \<Rightarrow> real \<Rightarrow> World \<Rightarrow> World" where
  "createParticlesLoop 0 px py w = w"
| "createParticlesLoop (Suc n) px py w =
     createParticlesLoop n px py
       (w\<lparr>particles := particles w @
             [\<lparr>p_x = px, p_y = py,
               p_vx = (shd (rnd w) - 0.5) * 5,
               p_vy = (shd (stl (rnd w)) - 0.5) * 5,
               p_life = 30\<rparr>],
           rnd := stl (stl (rnd w))\<rparr>)"

definition createParticles :: "real \<Rightarrow> real \<Rightarrow> World \<Rightarrow> World" where
  "createParticles px py w = createParticlesLoop 8 px py w"

text \<open>
  \<^verbatim>\<open>handlePlayerDeath()\<close>. The sound it plays touches no simulation state.
\<close>

definition respawn :: "real \<Rightarrow> Player \<Rightarrow> Player" where
  "respawn cam p =
     p\<lparr>y := -100, x := max (cam + 50) (x p), vx := 0, vy := 0, invincibleTimer := 180\<rparr>"

definition handlePlayerDeath :: "World \<Rightarrow> World" where
  "handlePlayerDeath w =
     (if invincibleTimer (player w) > 0 then w
      else
        let w1 = w\<lparr>player := (player w)\<lparr>hp := hp (player w) - 1\<rparr>\<rparr>;
            w2 = w1\<lparr>events := events w1 @ [SetLives (hp (player w1))]\<rparr>;
            w3 = createParticles (x (player w2)) (y (player w2)) w2
        in if hp (player w3) \<le> 0
           then w3\<lparr>events := events w3 @ [SetGameState GAME_OVER]\<rparr>
           else w3\<lparr>player := respawn (camera w3) (player w3)\<rparr>)"

section \<open>The simulation step (update)\<close>

subsection \<open>Player physics\<close>

text \<open>Horizontal movement: the left key is tested first.\<close>

definition horizontalMovement :: "Constants \<Rightarrow> InputState \<Rightarrow> Player \<Rightarrow> Player" where
  "horizontalMovement c inputs p =
     (if left inputs then p\<lparr>vx := - PLAYER_SPEED c, direction := Left\<rparr>
      else if right inputs then p\<lparr>vx := PLAYER_SPEED c, direction := Right\<rparr>
      else p\<lparr>vx := 0\<rparr>)"

definition verticalFacing :: "InputState \<Rightarrow> Player \<Rightarrow> Player" where
  "verticalFacing inputs p =
     (if up inputs then p\<lparr>facingVertical := 1\<rparr>
      else if down inputs then p\<lparr>facingVertical := -1\<rparr>
      else p\<lparr>facingVertical := 0\<rparr>)"

definition jumping :: "Constants \<Rightarrow> InputState \<Rightarrow> Player \<Rightarrow> Player" where
  "jumping c inputs p =
     (if jump inputs \<and> isGrounded p then
        (if down inputs then p\<lparr>y := y p + 1, isGrounded := False, vy := 1\<rparr>
         else p\<lparr>vy := JUMP_FORCE c, isGrounded := False\<rparr>)
      else p)"

text \<open>Gravity, then the position is advanced by the velocity.\<close>

definition gravity :: "Constants \<Rightarrow> Player \<Rightarrow> Player" where
  "gravity c p =
     (let p1 = p\<lparr>vy := vy p + GRAVITY c\<rparr>;
          p2 = p1\<lparr>x := x p1 + vx p1\<rparr>
      in p2\<lparr>y := y p2 + vy p2\<rparr>)"

definition levelBounds :: "real \<Rightarrow> Player \<Rightarrow> Player" where
  "levelBounds cam p = (if x p < cam then p\<lparr>x := cam\<rparr> else p)"

text \<open>
  The body of the loop over the platforms, and the loop. The overlap test is written out
  in the source, not a call of \<^verbatim>\<open>checkCollision\<close>.
\<close>

definition landing :: "Player \<Rightarrow> Platform \<Rightarrow> Player" where
  "landing p plat =
     (if x p < x plat + width plat \<and>
         x p + width p > x plat \<and>
         y p < y plat + height plat \<and>
         y p + height p > y plat
      then
        (let wasAbove = (y p - vy p + height p \<le> y plat)
         in if vy p > 0 \<and> wasAbove
            then p\<lparr>y := y plat - height p, vy := 0, isGrounded := True\<rparr>
            else p)
      else p)"

fun checkPlatforms :: "Platform list \<Rightarrow> Player \<Rightarrow> Player" where
  "checkPlatforms [] p = p"
| "checkPlatforms (plat # plats) p = checkPlatforms plats (landing p plat)"

definition playerPhysics :: "Constants \<Rightarrow> InputState \<Rightarrow> World \<Rightarrow> World" where
  "playerPhysics c inputs w =
     (let p1 = horizontalMovement c inputs (player w);
          p2 = verticalFacing inputs p1;
          p3 = jumping c inputs p2;
          p4 = gravity c p3;
          p5 = levelBounds (camera w) p4;
          p6 = p5\<lparr>isGrounded := False\<rparr>
      in w\<lparr>player := checkPlatforms (platforms w) p6\<rparr>)"

definition pitfall :: "Constants \<Rightarrow> World \<Rightarrow> World" where
  "pitfall c w = (if y (player w) > CANVAS_HEIGHT c then handlePlayerDeath w else w)"

subsection \<open>Shooting\<close>

text \<open>The direction of a shot, \<^verbatim>\<open>(bx, by)\<close>, in the source's order of the cases.\<close>

definition shootDirection :: "Constants \<Rightarrow> InputState \<Rightarrow> Player \<Rightarrow> real \<times> real" where
  "shootDirection c inputs p =
     (if facingVertical p = 1 then
        (if left inputs \<or> right inputs
         then (dirValue (direction p) * BULLET_SPEED c * 0.7, - BULLET_SPEED c * 0.7)
         else (0, - BULLET_SPEED c))
      else if facingVertical p = -1 \<and> \<not> isGrounded p then
        (if left inputs \<or> right inputs
         then (dirValue (direction p) * BULLET_SPEED c * 0.7, BULLET_SPEED c * 0.7)
         else (0, BULLET_SPEED c))
      else if facingVertical p = -1 \<and> isGrounded p then
        (dirValue (direction p) * BULLET_SPEED c, 0)
      else (dirValue (direction p) * BULLET_SPEED c, 0))"

definition coolDown :: "Player \<Rightarrow> Player" where
  "coolDown p = (if shootCooldown p > 0 then p\<lparr>shootCooldown := shootCooldown p - 1\<rparr> else p)"

definition playerBullet :: "Constants \<Rightarrow> InputState \<Rightarrow> Player \<Rightarrow> Bullet" where
  "playerBullet c inputs p =
     (case shootDirection c inputs p of (bx, by) \<Rightarrow>
        \<lparr>x = x p + width p / 2, y = y p + height p / 2, width = 8, height = 8,
         vx = bx, vy = by, isDead = False, owner = OwnerPlayer, life = 100\<rparr>)"

definition shooting :: "Constants \<Rightarrow> InputState \<Rightarrow> World \<Rightarrow> World" where
  "shooting c inputs w =
     (let w1 = w\<lparr>player := coolDown (player w)\<rparr>
      in if shoot inputs \<and> shootCooldown (player w1) \<le> 0
         then
           (let w2 = w1\<lparr>bullets := bullets w1 @ [playerBullet c inputs (player w1)]\<rparr>
            in w2\<lparr>player := (player w2)\<lparr>shootCooldown := SHOOT_COOLDOWN c\<rparr>\<rparr>)
         else w1)"

subsection \<open>Bullets\<close>

definition moveBullet :: "Bullet \<Rightarrow> Bullet" where
  "moveBullet b = b\<lparr>x := x b + vx b, y := y b + vy b, life := life b - 1\<rparr>"

definition offScreenOrDead :: "Constants \<Rightarrow> real \<Rightarrow> Bullet \<Rightarrow> bool" where
  "offScreenOrDead c cam b \<longleftrightarrow>
     life b \<le> 0 \<or> x b < cam \<or> x b > cam + CANVAS_WIDTH c \<or> y b < 0 \<or> y b > CANVAS_HEIGHT c"

text \<open>
  What a player's bullet does to the enemy it hits: \<^verbatim>\<open>enemy.hp--\<close>, particles at the
  enemy's centre, and, when \<^verbatim>\<open>hp <= 0\<close>, death, score, \<^verbatim>\<open>setScore\<close>, and
  \<^verbatim>\<open>setGameState(VICTORY)\<close> for the boss.
\<close>

definition killReward :: "Enemy \<Rightarrow> int" where
  "killReward e = (if etype e = Boss then 1000 else 100)"

definition hitEnemy :: "Enemy \<Rightarrow> World \<Rightarrow> Enemy \<times> World" where
  "hitEnemy e w =
     (let e1 = e\<lparr>hp := hp e - 1\<rparr>;
          w1 = createParticles (x e1 + width e1 / 2) (y e1 + height e1 / 2) w
      in if hp e1 \<le> 0 then
           (let e2 = e1\<lparr>isDead := True\<rparr>;
                w2 = w1\<lparr>player := (player w1)\<lparr>score := score (player w1) + killReward e2\<rparr>\<rparr>;
                w3 = w2\<lparr>events := events w2 @ [SetScore (score (player w2))]\<rparr>
            in if etype e2 = Boss
               then (e2, w3\<lparr>events := events w3 @ [SetGameState VICTORY]\<rparr>)
               else (e2, w3))
         else (e1, w1))"

text \<open>
  The loop \<^verbatim>\<open>for (const enemy of enemies)\<close> for one player's bullet: the first enemy
  that is not dead and overlaps the bullet is hit, the bullet's life is set to 0, and
  the loop is left (\<^verbatim>\<open>break\<close>). The enemies are objects changed in place; the function
  returns the list with the hit enemy replaced.
\<close>

fun hitEnemies :: "Bullet \<Rightarrow> Enemy list \<Rightarrow> World \<Rightarrow> Bullet \<times> Enemy list \<times> World" where
  "hitEnemies b [] w = (b, [], w)"
| "hitEnemies b (e # es) w =
     (if \<not> isDead e \<and> checkCollision b e
      then (case hitEnemy e w of (e', w') \<Rightarrow> (b\<lparr>life := 0\<rparr>, e' # es, w'))
      else (case hitEnemies b es w of (b', es', w') \<Rightarrow> (b', e # es', w')))"

text \<open>
  One pass of the body of the bullet loop. \<open>None\<close>: the bullet was spliced out of the
  array (\<^verbatim>\<open>continue\<close>); \<open>Some b'\<close>: it stays, as \<open>b'\<close>.
\<close>

definition bulletStep :: "Constants \<Rightarrow> Bullet \<Rightarrow> World \<Rightarrow> Bullet option \<times> World" where
  "bulletStep c b w =
     (let b1 = moveBullet b
      in if offScreenOrDead c (camera w) b1 then (None, w)
         else if owner b1 = OwnerPlayer then
           (case hitEnemies b1 (enemies w) w of (b2, es, w') \<Rightarrow> (Some b2, w'\<lparr>enemies := es\<rparr>))
         else if checkCollision b1 (player w) \<and> invincibleTimer (player w) \<le> 0
           then (Some (b1\<lparr>life := 0\<rparr>), handlePlayerDeath w)
           else (Some b1, w))"

text \<open>
  The loop \<^verbatim>\<open>for (let i = bullets.length - 1; i >= 0; i--)\<close>: the last bullet is handled
  first, and a removal at index \<^verbatim>\<open>i\<close> leaves the indices below \<^verbatim>\<open>i\<close> as they are.
  Nothing that the body calls reads or changes the array, so the bullets that stay are
  collected beside the world and stored at the end.
\<close>

fun bulletsLoop :: "Constants \<Rightarrow> Bullet list \<Rightarrow> World \<Rightarrow> Bullet list \<times> World" where
  "bulletsLoop c [] w = ([], w)"
| "bulletsLoop c (b # bs) w =
     (case bulletsLoop c bs w of (bs', w1) \<Rightarrow>
        (case bulletStep c b w1 of
           (None, w2) \<Rightarrow> (bs', w2)
         | (Some b', w2) \<Rightarrow> (b' # bs', w2)))"

definition bulletsUpdate :: "Constants \<Rightarrow> World \<Rightarrow> World" where
  "bulletsUpdate c w = (case bulletsLoop c (bullets w) w of (bs, w') \<Rightarrow> w'\<lparr>bullets := bs\<rparr>)"

subsection \<open>Enemies\<close>

text \<open>
  \<^verbatim>\<open>Math.atan2(dy, dx)\<close> on real numbers: the angle of the point \<open>(dx, dy)\<close> in
  \<open>(-\<pi>, \<pi>]\<close>, and 0 at the origin.
\<close>

definition atan2 :: "real \<Rightarrow> real \<Rightarrow> real" where
  "atan2 dy dx =
     (if dx > 0 then arctan (dy / dx)
      else if dx < 0 then (if dy \<ge> 0 then arctan (dy / dx) + pi else arctan (dy / dx) - pi)
      else if dy > 0 then pi / 2
      else if dy < 0 then - pi / 2
      else 0)"

text \<open>The runner: towards the player, ten units down, then onto every overlapping platform.\<close>

definition floorClamp :: "Enemy \<Rightarrow> Platform \<Rightarrow> Enemy" where
  "floorClamp e plat =
     (if x e < x plat + width plat \<and> x e + width e > x plat \<and>
         y e < y plat + height plat \<and> y e + height e > y plat
      then e\<lparr>y := y plat - height e\<rparr>
      else e)"

fun floorClamps :: "Platform list \<Rightarrow> Enemy \<Rightarrow> Enemy" where
  "floorClamps [] e = e"
| "floorClamps (plat # plats) e = floorClamps plats (floorClamp e plat)"

definition runnerMove :: "Constants \<Rightarrow> real \<Rightarrow> Platform list \<Rightarrow> Enemy \<Rightarrow> Enemy" where
  "runnerMove c distToPlayer plats e =
     (let e1 = (if \<bar>distToPlayer\<bar> > 10
                then e\<lparr>vx := (if distToPlayer > 0 then 1 else -1) * ENEMY_SPEED c,
                       direction := (if distToPlayer > 0 then Right else Left)\<rparr>
                else e);
          e2 = e1\<lparr>x := x e1 + vx e1\<rparr>;
          e3 = e2\<lparr>y := y e2 + 10\<rparr>
      in floorClamps plats e3)"

text \<open>The bullet of a turret or of the boss, aimed at the centre of the player.\<close>

definition aimAngle :: "Player \<Rightarrow> Enemy \<Rightarrow> real" where
  "aimAngle p e = atan2 ((y p + height p / 2) - (y e + 10)) ((x p + width p / 2) - x e)"

definition enemyBullet :: "Constants \<Rightarrow> Player \<Rightarrow> Enemy \<Rightarrow> Bullet" where
  "enemyBullet c p e =
     (let angle = aimAngle p e;
          speed = BULLET_SPEED c * 0.5
      in \<lparr>x = x e + width e / 2, y = y e + 10, width = 8, height = 8,
          vx = cos angle * speed, vy = sin angle * speed,
          isDead = False, owner = OwnerEnemy, life = 200\<rparr>)"

definition enemyShooting :: "Constants \<Rightarrow> Enemy \<Rightarrow> World \<Rightarrow> Enemy \<times> World" where
  "enemyShooting c e w =
     (let e1 = e\<lparr>shootCooldown := shootCooldown e - 1\<rparr>
      in if shootCooldown e1 \<le> 0
         then (e1\<lparr>shootCooldown := 120\<rparr>,
               w\<lparr>bullets := bullets w @ [enemyBullet c (player w) e1]\<rparr>)
         else (e1, w))"

text \<open>The body of the loop over the enemies; a dead enemy is skipped (\<^verbatim>\<open>continue\<close>).\<close>

definition enemyActive :: "Constants \<Rightarrow> Enemy \<Rightarrow> World \<Rightarrow> Enemy \<times> World" where
  "enemyActive c e w =
     (let distToPlayer = x (player w) - x e
      in if \<bar>distToPlayer\<bar> < 600 then
           (let e1 = (if etype e = Runner then runnerMove c distToPlayer (platforms w) e else e)
            in if etype e1 = Turret \<or> etype e1 = Boss then enemyShooting c e1 w else (e1, w))
         else (e, w))"

definition enemyStep :: "Constants \<Rightarrow> Enemy \<Rightarrow> World \<Rightarrow> Enemy \<times> World" where
  "enemyStep c e w =
     (if isDead e then (e, w)
      else
        (case enemyActive c e w of (e1, w1) \<Rightarrow>
           if checkCollision (player w1) e1 \<and> invincibleTimer (player w1) \<le> 0 \<and> \<not> isDead e1
           then (e1, handlePlayerDeath w1)
           else (e1, w1)))"

fun enemiesLoop :: "Constants \<Rightarrow> Enemy list \<Rightarrow> World \<Rightarrow> Enemy list \<times> World" where
  "enemiesLoop c [] w = ([], w)"
| "enemiesLoop c (e # es) w =
     (case enemyStep c e w of (e', w1) \<Rightarrow>
        (case enemiesLoop c es w1 of (es', w2) \<Rightarrow> (e' # es', w2)))"

definition enemiesUpdate :: "Constants \<Rightarrow> World \<Rightarrow> World" where
  "enemiesUpdate c w = (case enemiesLoop c (enemies w) w of (es, w') \<Rightarrow> w'\<lparr>enemies := es\<rparr>)"

subsection \<open>Particles, camera, invincibility\<close>

definition moveParticle :: "Particle \<Rightarrow> Particle" where
  "moveParticle p = p\<lparr>p_x := p_x p + p_vx p, p_y := p_y p + p_vy p, p_life := p_life p - 1\<rparr>"

fun particlesLoop :: "Particle list \<Rightarrow> Particle list" where
  "particlesLoop [] = []"
| "particlesLoop (p # ps) =
     (let ps' = particlesLoop ps; p1 = moveParticle p
      in if p_life p1 \<le> 0 then ps' else p1 # ps')"

definition particlesUpdate :: "World \<Rightarrow> World" where
  "particlesUpdate w = w\<lparr>particles := particlesLoop (particles w)\<rparr>"

definition cameraFollow :: "Constants \<Rightarrow> World \<Rightarrow> World" where
  "cameraFollow c w =
     (let w1 = (if x (player w) > camera w + CAMERA_OFFSET_X c
                then w\<lparr>camera := x (player w) - CAMERA_OFFSET_X c\<rparr> else w)
      in if camera w1 > LEVEL_LENGTH c - CANVAS_WIDTH c
         then w1\<lparr>camera := LEVEL_LENGTH c - CANVAS_WIDTH c\<rparr> else w1)"

definition invincibility :: "World \<Rightarrow> World" where
  "invincibility w =
     (if invincibleTimer (player w) > 0
      then w\<lparr>player := (player w)\<lparr>invincibleTimer := invincibleTimer (player w) - 1\<rparr>\<rparr>
      else w)"

subsection \<open>The step\<close>

text \<open>
  \<^verbatim>\<open>update\<close>, section by section in the source's order. It returns at once unless the
  captured \<^verbatim>\<open>gameState\<close> is \<^verbatim>\<open>PLAYING\<close>; a call of \<^verbatim>\<open>setGameState\<close> inside the step
  does not end the step.
\<close>

definition update :: "Constants \<Rightarrow> GameState \<Rightarrow> InputState \<Rightarrow> World \<Rightarrow> World" where
  "update c gameState inputs w =
     (if gameState \<noteq> PLAYING then w
      else
        let w0 = w\<lparr>tick := tick w + 1\<rparr>;
            w1 = playerPhysics c inputs w0;
            w2 = pitfall c w1;
            w3 = shooting c inputs w2;
            w4 = bulletsUpdate c w3;
            w5 = enemiesUpdate c w4;
            w6 = particlesUpdate w5;
            w7 = cameraFollow c w6
        in invincibility w7)"

section \<open>Level initialisation (initLevel)\<close>

definition addGround :: "Constants \<Rightarrow> real \<Rightarrow> real \<Rightarrow> Platform" where
  "addGround c gx gw = \<lparr>x = gx, y = CANVAS_HEIGHT c - 40, width = gw, height = 40, ptype = Solid\<rparr>"

definition addPlat :: "real \<Rightarrow> real \<Rightarrow> real \<Rightarrow> Platform" where
  "addPlat ax ay aw = \<lparr>x = ax, y = ay, width = aw, height = 10, ptype = PassThrough\<rparr>"

text \<open>
  \<^verbatim>\<open>spawnEnemy\<close> also gives each enemy \<^verbatim>\<open>id: Math.random()\<close>. The id is never read
  and has no field here, but the value is drawn: the nine calls of \<^verbatim>\<open>spawnEnemy\<close> in
  \<^verbatim>\<open>initLevel\<close> take nine values from the supply \<open>rnd\<close>.
\<close>

definition spawnEnemy :: "Constants \<Rightarrow> real \<Rightarrow> EnemyType \<Rightarrow> real \<Rightarrow> Enemy" where
  "spawnEnemy c sx ty sy =
     \<lparr>x = sx, y = (if sy = 0 then CANVAS_HEIGHT c - 88 else sy),
      width = (if ty = Boss then 60 else 24), height = (if ty = Boss then 80 else 48),
      vx = 0, vy = 0, isDead = False,
      direction = Left, shootCooldown = 0, hp = (if ty = Boss then 50 else 1),
      etype = ty\<rparr>"

definition initialPlayer :: Player where
  "initialPlayer =
     \<lparr>x = 100, y = 100, width = 24, height = 48, vx = 0, vy = 0, isDead = False,
      direction = Right, shootCooldown = 0, hp = 3,
      isGrounded = False, isCrouching = False, invincibleTimer = 0, score = 0,
      facingVertical = 0\<rparr>"

definition initLevel :: "Constants \<Rightarrow> World \<Rightarrow> World" where
  "initLevel c w =
     w\<lparr>platforms :=
         [addGround c 0 800, addGround c 900 300, addGround c 1300 600, addGround c 2000 200,
          addGround c 2300 1700,
          addPlat 400 400 100, addPlat 600 300 100, addPlat 950 400 100, addPlat 1400 450 100,
          addPlat 1600 350 100, addPlat 1800 250 100,
          addPlat 2400 400 100, addPlat 2600 300 100],
       player := initialPlayer,
       bullets := [],
       enemies :=
         [spawnEnemy c 600 Runner 0, spawnEnemy c 1000 Turret 350, spawnEnemy c 1200 Runner 0,
          spawnEnemy c 1500 Runner 0, spawnEnemy c 1700 Turret 300, spawnEnemy c 2200 Runner 0,
          spawnEnemy c 2500 Runner 0, spawnEnemy c 2800 Runner 0,
          spawnEnemy c 3500 Boss (CANVAS_HEIGHT c - 120)],
       particles := [],
       camera := 0,
       tick := 0,
       rnd := sdrop 9 (rnd w)\<rparr>"

text \<open>
  A play session: the steps run one after the other from a world, each with the
  \<^verbatim>\<open>gameState\<close> its callback captured and the inputs read at its start.
\<close>

fun steps :: "Constants \<Rightarrow> (GameState \<times> InputState) list \<Rightarrow> World \<Rightarrow> World" where
  "steps c [] w = w"
| "steps c ((g, inputs) # rest) w = steps c rest (update c g inputs w)"

section \<open>The game state of the application (App.tsx)\<close>

text \<open>
  \<^verbatim>\<open>App\<close> holds \<^verbatim>\<open>gameState\<close> in \<^verbatim>\<open>useState\<close> and hands its setter to the component
  as \<^verbatim>\<open>setGameState\<close>. The setter is always called with a value, so after the calls
  logged in one step the state is the value of the last call of \<^verbatim>\<open>setGameState\<close>, and
  the old state if there was none.
\<close>

fun gameStateAfter :: "GameState \<Rightarrow> Event list \<Rightarrow> GameState" where
  "gameStateAfter g [] = g"
| "gameStateAfter g (SetGameState s # evs) = gameStateAfter s evs"
| "gameStateAfter g (SetScore n # evs) = gameStateAfter g evs"
| "gameStateAfter g (SetLives n # evs) = gameStateAfter g evs"

section \<open>Kills, as seen from outside a step\<close>

text \<open>
  Enemies are never removed from their array, so the enemy at an index before a step is
  the enemy at that index after it. \<open>scoreDue es es'\<close> adds up, over the enemies
  that are not dead in \<open>es\<close> and dead at the same index in \<open>es'\<close>, 1000 for a boss
  and 100 for a runner or a turret; \<open>bossKilled es es'\<close> says that one of them is a
  boss.
\<close>

fun scoreDue :: "Enemy list \<Rightarrow> Enemy list \<Rightarrow> int" where
  "scoreDue (e # es) (e' # es') =
     (if \<not> isDead e \<and> isDead e' then (if etype e = Boss then 1000 else 100) else 0)
       + scoreDue es es'"
| "scoreDue _ _ = 0"

fun bossKilled :: "Enemy list \<Rightarrow> Enemy list \<Rightarrow> bool" where
  "bossKilled (e # es) (e' # es') \<longleftrightarrow>
     (etype e = Boss \<and> \<not> isDead e \<and> isDead e') \<or> bossKilled es es'"
| "bossKilled _ _ \<longleftrightarrow> False"

text \<open>
  Relations between the world before and after a part of a step, used in the proofs:
  the same enemies with the same types, none revived; the score accounted for by the
  kills, with \<^verbatim>\<open>setGameState(VICTORY)\<close> logged if a boss was killed; the log extended,
  with \<^verbatim>\<open>setGameState(GAME_OVER)\<close> in the extension if \<open>hp\<close> fell to \<open>\<le> 0\<close>.
\<close>

definition sameRoster :: "Enemy list \<Rightarrow> Enemy list \<Rightarrow> bool" where
  "sameRoster es es' \<longleftrightarrow>
     list_all2 (\<lambda>e e'. etype e' = etype e \<and> (isDead e \<longrightarrow> isDead e')) es es'"

definition tally :: "World \<Rightarrow> World \<Rightarrow> bool" where
  "tally a b \<longleftrightarrow>
     sameRoster (enemies a) (enemies b) \<and>
     score (player b) = score (player a) + scoreDue (enemies a) (enemies b) \<and>
     (\<exists>ev. events b = events a @ ev \<and>
           (bossKilled (enemies a) (enemies b) \<longrightarrow> SetGameState VICTORY \<in> set ev))"

definition fatalSignalled :: "World \<Rightarrow> World \<Rightarrow> bool" where
  "fatalSignalled a b \<longleftrightarrow>
     (\<exists>ev. events b = events a @ ev \<and> hp (player b) \<le> hp (player a) \<and>
           (hp (player b) < hp (player a) \<and> hp (player b) \<le> 0 \<longrightarrow>
              SetGameState GAME_OVER \<in> set ev))"

text \<open>
  Two more relations of the same kind: \<^verbatim>\<open>setGameState\<close> is called with \<^verbatim>\<open>VICTORY\<close>
  or \<^verbatim>\<open>GAME_OVER\<close> only, and with \<^verbatim>\<open>GAME_OVER\<close> only if \<open>hp\<close> fell to \<open>\<le> 0\<close>;
  and it is called with \<^verbatim>\<open>VICTORY\<close> only if a boss was killed.
\<close>

definition terminalCalls :: "World \<Rightarrow> World \<Rightarrow> bool" where
  "terminalCalls a b \<longleftrightarrow>
     (\<exists>ev. events b = events a @ ev \<and> hp (player b) \<le> hp (player a) \<and>
           (\<forall>s. SetGameState s \<in> set ev \<longrightarrow> s = VICTORY \<or> s = GAME_OVER) \<and>
           (SetGameState GAME_OVER \<in> set ev \<longrightarrow>
              hp (player b) < hp (player a) \<and> hp (player b) \<le> 0))"

definition victoryByKill :: "World \<Rightarrow> World \<Rightarrow> bool" where
  "victoryByKill a b \<longleftrightarrow>
     sameRoster (enemies a) (enemies b) \<and>
     (\<exists>ev. events b = events a @ ev \<and>
           (SetGameState VICTORY \<in> set ev \<longrightarrow> bossKilled (enemies a) (enemies b)))"

section \<open>Invariant and concrete inputs\<close>

text \<open>The range the camera is meant to stay in.\<close>

definition cameraInRange :: "Constants \<Rightarrow> World \<Rightarrow> bool" where
  "cameraInRange c w \<longleftrightarrow> 0 \<le> camera w \<and> camera w \<le> LEVEL_LENGTH c - CANVAS_WIDTH c"

text \<open>
  Concrete values for the examples below. The constants are sample values of the kind a
  game of this size uses; no statement about the code depends on them.
\<close>

definition exampleConstants :: Constants where
  "exampleConstants =
     \<lparr>CANVAS_WIDTH = 800, CANVAS_HEIGHT = 600, GRAVITY = 0.5, PLAYER_SPEED = 3,
      JUMP_FORCE = -12, BULLET_SPEED = 10, SHOOT_COOLDOWN = 10, CAMERA_OFFSET_X = 300,
      ENEMY_SPEED = 2, LEVEL_LENGTH = 4000\<rparr>"

definition noInputs :: InputState where
  "noInputs =
     \<lparr>left = False, right = False, up = False, down = False, jump = False, shoot = False\<rparr>"

definition emptyWorld :: World where
  "emptyWorld =
     \<lparr>player = initialPlayer, bullets = [], enemies = [], particles = [], camera = 0,
      platforms = [], tick = 0, events = [], rnd = sconst 0.5\<rparr>"

text \<open>A player 5 units into a fall that has just crossed the top of the platform at height 400.\<close>

definition fallingPlayer :: Player where
  "fallingPlayer = initialPlayer\<lparr>x := 420, y := 355, vy := 5\<rparr>"

text \<open>The player on the last life, with two runners standing on the same spot.\<close>

definition lastLifeWorld :: World where
  "lastLifeWorld =
     emptyWorld\<lparr>player := initialPlayer\<lparr>hp := 1\<rparr>,
                enemies := [spawnEnemy exampleConstants 100 Runner 100,
                            spawnEnemy exampleConstants 100 Runner 100]\<rparr>"

text \<open>A player's bullet one move away from a turret with five hit points.\<close>

definition hitWorld :: World where
  "hitWorld =
     emptyWorld\<lparr>bullets := [\<lparr>x = 490, y = 310, width = 8, height = 8, vx = 10, vy = 0,
                              isDead = False, owner = OwnerPlayer, life = 50\<rparr>],
                enemies := [(spawnEnemy exampleConstants 500 Turret 300)
                              \<lparr>hp := 5, shootCooldown := 60\<rparr>]\<rparr>"

text \<open>A player's bullet one move away from the boss on its last hit point.\<close>

definition bossWorld :: World where
  "bossWorld =
     emptyWorld\<lparr>bullets := [\<lparr>x = 490, y = 310, width = 8, height = 8, vx = 10, vy = 0,
                              isDead = False, owner = OwnerPlayer, life = 50\<rparr>],
                enemies := [(spawnEnemy exampleConstants 500 Boss 300)
                              \<lparr>hp := 1, shootCooldown := 60\<rparr>]\<rparr>"

text \<open>Inputs: aiming up and shooting, nothing else held.\<close>

definition aimUp :: InputState where
  "aimUp = noInputs\<lparr>up := True, shoot := True\<rparr>"

definition aimingUpWorld :: World where
  "aimingUpWorld = emptyWorld\<lparr>player := initialPlayer\<lparr>facingVertical := 1\<rparr>\<rparr>"

text \<open>The player just below the lower edge of the canvas, and the player while invincible.\<close>

definition pitWorld :: World where
  "pitWorld = emptyWorld\<lparr>player := initialPlayer\<lparr>y := 601\<rparr>\<rparr>"

definition shieldedWorld :: World where
  "shieldedWorld = emptyWorld\<lparr>player := initialPlayer\<lparr>invincibleTimer := 5\<rparr>\<rparr>"

text \<open>An enemy's bullet that reaches the player of \<open>pitWorld\<close> with its next move.\<close>

definition strayBullet :: Bullet where
  "strayBullet =
     \<lparr>x = 100, y = 588, width = 8, height = 8, vx = 0, vy = 10, isDead = False,
      owner = OwnerEnemy, life = 200\<rparr>"

text \<open>A turret on the spot of the player of \<open>pitWorld\<close>, half way through its cooldown.\<close>

definition sentry :: Enemy where
  "sentry = (spawnEnemy exampleConstants 100 Turret 601)\<lparr>shootCooldown := 60\<rparr>"

text \<open>
  A turret 288 units to the right of the centre of the initial player and level with it,
  ready to fire.
\<close>

definition gunner :: Enemy where
  "gunner = spawnEnemy exampleConstants 400 Turret 114"

text \<open>
  A turret on the ground line, ready to fire, and the player in the air with the centre
  straight above the point where the turret's bullet starts (\<open>x = 412\<close>).
\<close>

definition tower :: Enemy where
  "tower = spawnEnemy exampleConstants 400 Turret 300"

definition overheadWorld :: World where
  "overheadWorld = emptyWorld\<lparr>player := initialPlayer\<lparr>x := 400\<rparr>\<rparr>"

text \<open>
  The player and the boss both on their last life or hit point, each one move away from
  a bullet of the other. In \<open>duelWorld\<close> the player's bullet has the higher index and
  is handled first, in \<open>lateVictoryWorld\<close> the boss's bullet.
\<close>

definition incomingBullet :: Bullet where
  "incomingBullet =
     \<lparr>x = 90, y = 110, width = 8, height = 8, vx = 10, vy = 0, isDead = False,
      owner = OwnerEnemy, life = 150\<rparr>"

definition outgoingBullet :: Bullet where
  "outgoingBullet =
     \<lparr>x = 490, y = 310, width = 8, height = 8, vx = 10, vy = 0, isDead = False,
      owner = OwnerPlayer, life = 50\<rparr>"

definition duelWorld :: World where
  "duelWorld =
     emptyWorld\<lparr>player := initialPlayer\<lparr>hp := 1\<rparr>,
                bullets := [incomingBullet, outgoingBullet],
                enemies := [(spawnEnemy exampleConstants 500 Boss 300)
                              \<lparr>hp := 1, shootCooldown := 60\<rparr>]\<rparr>"

definition lateVictoryWorld :: World where
  "lateVictoryWorld =
     emptyWorld\<lparr>player := initialPlayer\<lparr>hp := 1\<rparr>,
                bullets := [outgoingBullet, incomingBullet],
                enemies := [(spawnEnemy exampleConstants 500 Boss 300)
                              \<lparr>hp := 1, shootCooldown := 60\<rparr>]\<rparr>"

text \<open>The bullet of \<open>hitWorld\<close> after it has hit the turret.\<close>

definition spentBullet :: Bullet where
  "spentBullet =
     \<lparr>x = 500, y = 310, width = 8, height = 8, vx = 10, vy = 0, isDead = False,
      owner = OwnerPlayer, life = 0\<rparr>"

section \<open>What each part of the step leaves alone\<close>

lemmas step_defs =
  update_def playerPhysics_def horizontalMovement_def verticalFacing_def jumping_def
  gravity_def levelBounds_def landing_def pitfall_def shooting_def coolDown_def
  playerBullet_def shootDirection_def bulletsUpdate_def bulletStep_def moveBullet_def
  offScreenOrDead_def hitEnemy_def killReward_def enemiesUpdate_def enemyStep_def
  enemyActive_def enemyShooting_def enemyBullet_def runnerMove_def floorClamp_def
  particlesUpdate_def moveParticle_def cameraFollow_def invincibility_def
  handlePlayerDeath_def respawn_def checkCollision_def createParticles_def

lemmas example_defs =
  exampleConstants_def noInputs_def emptyWorld_def initialPlayer_def fallingPlayer_def
  lastLifeWorld_def hitWorld_def bossWorld_def spawnEnemy_def addGround_def addPlat_def
  aimUp_def aimingUpWorld_def pitWorld_def shieldedWorld_def strayBullet_def sentry_def
  gunner_def spentBullet_def tower_def overheadWorld_def incomingBullet_def
  outgoingBullet_def duelWorld_def lateVictoryWorld_def

lemma createParticlesLoop_frame [simp]:
  "player (createParticlesLoop n px py w) = player w"
  "bullets (createParticlesLoop n px py w) = bullets w"
  "enemies (createParticlesLoop n px py w) = enemies w"
  "camera (createParticlesLoop n px py w) = camera w"
  "platforms (createParticlesLoop n px py w) = platforms w"
  "tick (createParticlesLoop n px py w) = tick w"
  "events (createParticlesLoop n px py w) = events w"
  by (induction n arbitrary: w) simp_all

lemma createParticles_frame [simp]:
  "player (createParticles px py w) = player w"
  "bullets (createParticles px py w) = bullets w"
  "enemies (createParticles px py w) = enemies w"
  "camera (createParticles px py w) = camera w"
  "platforms (createParticles px py w) = platforms w"
  "tick (createParticles px py w) = tick w"
  "events (createParticles px py w) = events w"
  by (simp_all add: createParticles_def)

lemma handlePlayerDeath_keeps [simp]:
  "score (player (handlePlayerDeath w)) = score (player w)"
  "camera (handlePlayerDeath w) = camera w"
  "platforms (handlePlayerDeath w) = platforms w"
  "enemies (handlePlayerDeath w) = enemies w"
  "bullets (handlePlayerDeath w) = bullets w"
  by (simp_all add: handlePlayerDeath_def Let_def respawn_def)

lemma hitEnemy_keeps [simp]:
  "hp (player (snd (hitEnemy e w))) = hp (player w)"
  "invincibleTimer (player (snd (hitEnemy e w))) = invincibleTimer (player w)"
  "camera (snd (hitEnemy e w)) = camera w"
  "platforms (snd (hitEnemy e w)) = platforms w"
  "bullets (snd (hitEnemy e w)) = bullets w"
  by (simp_all add: hitEnemy_def Let_def)

lemma checkPlatforms_keeps [simp]:
  "hp (checkPlatforms plats p) = hp p"
  "score (checkPlatforms plats p) = score p"
  "invincibleTimer (checkPlatforms plats p) = invincibleTimer p"
  "shootCooldown (checkPlatforms plats p) = shootCooldown p"
  by (induction plats arbitrary: p) (simp_all add: landing_def Let_def)

lemma playerPhysics_keeps [simp]:
  "hp (player (playerPhysics c i w)) = hp (player w)"
  "score (player (playerPhysics c i w)) = score (player w)"
  "invincibleTimer (player (playerPhysics c i w)) = invincibleTimer (player w)"
  "shootCooldown (player (playerPhysics c i w)) = shootCooldown (player w)"
  "camera (playerPhysics c i w) = camera w"
  "events (playerPhysics c i w) = events w"
  "platforms (playerPhysics c i w) = platforms w"
  "enemies (playerPhysics c i w) = enemies w"
  "bullets (playerPhysics c i w) = bullets w"
  by (simp_all add: playerPhysics_def Let_def horizontalMovement_def verticalFacing_def
      jumping_def gravity_def levelBounds_def)

lemma pitfall_keeps [simp]:
  "score (player (pitfall c w)) = score (player w)"
  "camera (pitfall c w) = camera w"
  "platforms (pitfall c w) = platforms w"
  "enemies (pitfall c w) = enemies w"
  "bullets (pitfall c w) = bullets w"
  by (simp_all add: pitfall_def)

lemma shooting_keeps [simp]:
  "hp (player (shooting c i w)) = hp (player w)"
  "score (player (shooting c i w)) = score (player w)"
  "invincibleTimer (player (shooting c i w)) = invincibleTimer (player w)"
  "x (player (shooting c i w)) = x (player w)"
  "camera (shooting c i w) = camera w"
  "events (shooting c i w) = events w"
  "platforms (shooting c i w) = platforms w"
  "enemies (shooting c i w) = enemies w"
  by (simp_all add: shooting_def Let_def coolDown_def)

lemma particlesUpdate_keeps [simp]:
  "player (particlesUpdate w) = player w"
  "camera (particlesUpdate w) = camera w"
  "events (particlesUpdate w) = events w"
  "platforms (particlesUpdate w) = platforms w"
  "enemies (particlesUpdate w) = enemies w"
  "bullets (particlesUpdate w) = bullets w"
  by (simp_all add: particlesUpdate_def)

lemma cameraFollow_keeps [simp]:
  "player (cameraFollow c w) = player w"
  "events (cameraFollow c w) = events w"
  "platforms (cameraFollow c w) = platforms w"
  "enemies (cameraFollow c w) = enemies w"
  "bullets (cameraFollow c w) = bullets w"
  by (simp_all add: cameraFollow_def Let_def)

lemma invincibility_keeps [simp]:
  "hp (player (invincibility w)) = hp (player w)"
  "score (player (invincibility w)) = score (player w)"
  "x (player (invincibility w)) = x (player w)"
  "camera (invincibility w) = camera w"
  "events (invincibility w) = events w"
  "platforms (invincibility w) = platforms w"
  "enemies (invincibility w) = enemies w"
  "bullets (invincibility w) = bullets w"
  by (simp_all add: invincibility_def)

lemma update_playing:
  "update c PLAYING i w =
     invincibility (cameraFollow c (particlesUpdate (enemiesUpdate c (bulletsUpdate c
       (shooting c i (pitfall c (playerPhysics c i (w\<lparr>tick := tick w + 1\<rparr>))))))))"
  by (simp add: update_def Let_def)

lemma update_not_playing: "g \<noteq> PLAYING \<Longrightarrow> update c g i w = w"
  by (simp add: update_def)

lemma steps_append: "steps c (ss @ ss') w = steps c ss' (steps c ss w)"
  by (induction ss arbitrary: w) auto

section \<open>Relations that every part of the step respects\<close>

text \<open>
  Many properties of a step have the same shape: a relation \<open>P\<close> between the world
  before and the world after that is reflexive and transitive and holds across each
  elementary effect. The lemmas of this section carry such a relation through the loops
  over the bullets and the enemies, once and for all.
\<close>

lemma hitEnemies_rel:
  assumes refl: "\<And>w. P w w"
    and hit: "\<And>e w. P w (snd (hitEnemy e w))"
  shows "P w (snd (snd (hitEnemies b es w)))"
proof (induction es)
  case Nil
  show ?case by (simp add: refl)
next
  case (Cons e es)
  show ?case
  proof (cases "\<not> isDead e \<and> checkCollision b e")
    case True
    with hit[of w e] show ?thesis by (simp add: case_prod_beta)
  next
    case False
    with Cons show ?thesis by (auto simp add: case_prod_beta)
  qed
qed

lemma bulletsLoop_steps:
  assumes refl: "\<And>w. P w w"
    and trans: "\<And>a b d. P a b \<Longrightarrow> P b d \<Longrightarrow> P a d"
    and step: "\<And>b w. P w (snd (bulletStep c b w))"
  shows "P w (snd (bulletsLoop c bs w))"
proof (induction bs)
  case Nil
  show ?case by (simp add: refl)
next
  case (Cons b bs)
  from Cons step[of "snd (bulletsLoop c bs w)" b]
  have "P w (snd (bulletStep c b (snd (bulletsLoop c bs w))))"
    using trans by blast
  then show ?case by (simp add: case_prod_beta split: option.splits)
qed

lemma enemiesLoop_steps:
  assumes refl: "\<And>w. P w w"
    and trans: "\<And>a b d. P a b \<Longrightarrow> P b d \<Longrightarrow> P a d"
    and step: "\<And>e w. P w (snd (enemyStep c e w))"
  shows "P w (snd (enemiesLoop c es w))"
proof (induction es arbitrary: w)
  case Nil
  show ?case by (simp add: refl)
next
  case (Cons e es)
  from Cons[of "snd (enemyStep c e w)"] step[of w e]
  have "P w (snd (enemiesLoop c es (snd (enemyStep c e w))))"
    using trans by blast
  then show ?case by (simp add: case_prod_beta)
qed

lemma bulletStep_rel:
  assumes refl: "\<And>w. P w w"
    and trans: "\<And>a b d. P a b \<Longrightarrow> P b d \<Longrightarrow> P a d"
    and hit: "\<And>e w. P w (snd (hitEnemy e w))"
    and death: "\<And>w. P w (handlePlayerDeath w)"
    and setEnemies: "\<And>w es. P w (w\<lparr>enemies := es\<rparr>)"
  shows "P w (snd (bulletStep c b w))"
proof -
  have "P w (snd (snd (hitEnemies (moveBullet b) (enemies w) w)))"
    by (rule hitEnemies_rel[of P, OF refl hit])
  then have "P w ((snd (snd (hitEnemies (moveBullet b) (enemies w) w)))
                    \<lparr>enemies := fst (snd (hitEnemies (moveBullet b) (enemies w) w))\<rparr>)"
    using setEnemies trans by blast
  then show ?thesis
    by (simp add: bulletStep_def Let_def refl death case_prod_beta)
qed

lemma enemyStep_rel:
  assumes refl: "\<And>w. P w w"
    and trans: "\<And>a b d. P a b \<Longrightarrow> P b d \<Longrightarrow> P a d"
    and death: "\<And>w. P w (handlePlayerDeath w)"
    and setBullets: "\<And>w bs. P w (w\<lparr>bullets := bs\<rparr>)"
  shows "P w (snd (enemyStep c e w))"
proof -
  have active: "P w (snd (enemyActive c e w))"
    by (simp add: enemyActive_def enemyShooting_def Let_def refl setBullets)
  have "P (snd (enemyActive c e w)) (handlePlayerDeath (snd (enemyActive c e w)))"
    by (rule death)
  with active have "P w (handlePlayerDeath (snd (enemyActive c e w)))"
    using trans by blast
  with active show ?thesis
    by (simp add: enemyStep_def refl case_prod_beta)
qed

lemma bulletsUpdate_rel:
  assumes refl: "\<And>w. P w w"
    and trans: "\<And>a b d. P a b \<Longrightarrow> P b d \<Longrightarrow> P a d"
    and hit: "\<And>e w. P w (snd (hitEnemy e w))"
    and death: "\<And>w. P w (handlePlayerDeath w)"
    and setEnemies: "\<And>w es. P w (w\<lparr>enemies := es\<rparr>)"
    and setBullets: "\<And>w bs. P w (w\<lparr>bullets := bs\<rparr>)"
  shows "P w (bulletsUpdate c w)"
proof -
  have step: "P v (snd (bulletStep c b v))" for b v
    by (rule bulletStep_rel[of P, OF refl trans hit death setEnemies])
  have "P w (snd (bulletsLoop c (bullets w) w))"
    by (rule bulletsLoop_steps[of P, OF refl trans step])
  then show ?thesis
    unfolding bulletsUpdate_def case_prod_beta using setBullets trans by blast
qed

lemma enemiesUpdate_rel:
  assumes refl: "\<And>w. P w w"
    and trans: "\<And>a b d. P a b \<Longrightarrow> P b d \<Longrightarrow> P a d"
    and death: "\<And>w. P w (handlePlayerDeath w)"
    and setEnemies: "\<And>w es. P w (w\<lparr>enemies := es\<rparr>)"
    and setBullets: "\<And>w bs. P w (w\<lparr>bullets := bs\<rparr>)"
  shows "P w (enemiesUpdate c w)"
proof -
  have step: "P v (snd (enemyStep c e v))" for e v
    by (rule enemyStep_rel[of P, OF refl trans death setBullets])
  have "P w (snd (enemiesLoop c (enemies w) w))"
    by (rule enemiesLoop_steps[of P, OF refl trans step])
  then show ?thesis
    unfolding enemiesUpdate_def case_prod_beta using setEnemies trans by blast
qed

lemma bulletsUpdate_camera [simp]: "camera (bulletsUpdate c w) = camera w"
  by (rule bulletsUpdate_rel[of "\<lambda>a b. camera b = camera a"]) simp_all

lemma bulletsUpdate_platforms [simp]: "platforms (bulletsUpdate c w) = platforms w"
  by (rule bulletsUpdate_rel[of "\<lambda>a b. platforms b = platforms a"]) simp_all

lemma enemiesUpdate_camera [simp]: "camera (enemiesUpdate c w) = camera w"
  by (rule enemiesUpdate_rel[of "\<lambda>a b. camera b = camera a"]) simp_all

lemma enemiesUpdate_platforms [simp]: "platforms (enemiesUpdate c w) = platforms w"
  by (rule enemiesUpdate_rel[of "\<lambda>a b. platforms b = platforms a"]) simp_all

text \<open>The same for all the sections of a step that come before the camera.\<close>

lemma sections_rel:
  assumes refl: "\<And>w. P w w"
    and trans: "\<And>a b d. P a b \<Longrightarrow> P b d \<Longrightarrow> P a d"
    and hit: "\<And>e w. P w (snd (hitEnemy e w))"
    and death: "\<And>w. P w (handlePlayerDeath w)"
    and setEnemies: "\<And>w es. P w (w\<lparr>enemies := es\<rparr>)"
    and setBullets: "\<And>w bs. P w (w\<lparr>bullets := bs\<rparr>)"
    and setTick: "\<And>w t. P w (w\<lparr>tick := t\<rparr>)"
    and physics: "\<And>w. P w (playerPhysics c i w)"
    and shots: "\<And>w. P w (shooting c i w)"
    and parts: "\<And>w. P w (particlesUpdate w)"
  shows "P w (particlesUpdate (enemiesUpdate c (bulletsUpdate c
           (shooting c i (pitfall c (playerPhysics c i (w\<lparr>tick := tick w + 1\<rparr>)))))))"
proof -
  let ?w0 = "w\<lparr>tick := tick w + 1\<rparr>"
  let ?w1 = "playerPhysics c i ?w0"
  let ?w2 = "pitfall c ?w1"
  let ?w3 = "shooting c i ?w2"
  let ?w4 = "bulletsUpdate c ?w3"
  let ?w5 = "enemiesUpdate c ?w4"
  have s1: "P w ?w1" using setTick[of w] physics[of ?w0] trans by blast
  have "P ?w1 ?w2" by (simp add: pitfall_def refl death)
  with s1 have s2: "P w ?w2" using trans by blast
  with shots[of ?w2] have s3: "P w ?w3" using trans by blast
  have "P ?w3 ?w4"
    by (rule bulletsUpdate_rel[of P, OF refl trans hit death setEnemies setBullets])
  with s3 have s4: "P w ?w4" using trans by blast
  have "P ?w4 ?w5"
    by (rule enemiesUpdate_rel[of P, OF refl trans death setEnemies setBullets])
  with s4 have s5: "P w ?w5" using trans by blast
  with parts[of ?w5] show ?thesis using trans by blast
qed

section \<open>Invariants of a step\<close>

lemma timer_nonneg_sections:
  "0 \<le> invincibleTimer (player w) \<longrightarrow>
   0 \<le> invincibleTimer (player (particlesUpdate (enemiesUpdate c (bulletsUpdate c
           (shooting c i (pitfall c (playerPhysics c i (w\<lparr>tick := tick w + 1\<rparr>))))))))"
  by (rule sections_rel[of "\<lambda>a b. 0 \<le> invincibleTimer (player a) \<longrightarrow>
        0 \<le> invincibleTimer (player b)"])
     (simp_all add: handlePlayerDeath_def Let_def respawn_def)

lemma timer_nonneg_update:
  "0 \<le> invincibleTimer (player w) \<Longrightarrow> 0 \<le> invincibleTimer (player (update c g i w))"
proof (cases "g = PLAYING")
  case True
  assume "0 \<le> invincibleTimer (player w)"
  with timer_nonneg_sections[of w c i] show ?thesis
    unfolding True update_playing by (simp add: invincibility_def)
next
  case False
  assume "0 \<le> invincibleTimer (player w)"
  with False show ?thesis by (simp add: update_not_playing)
qed

lemma timer_nonneg_steps:
  "0 \<le> invincibleTimer (player w) \<Longrightarrow> 0 \<le> invincibleTimer (player (steps c ss w))"
  by (induction ss arbitrary: w) (auto simp: timer_nonneg_update)

lemma invincible_sections:
  "invincibleTimer (player w) > 0 \<longrightarrow>
     hp (player (particlesUpdate (enemiesUpdate c (bulletsUpdate c
           (shooting c i (pitfall c (playerPhysics c i (w\<lparr>tick := tick w + 1\<rparr>))))))))
       = hp (player w) \<and>
     invincibleTimer (player (particlesUpdate (enemiesUpdate c (bulletsUpdate c
           (shooting c i (pitfall c (playerPhysics c i (w\<lparr>tick := tick w + 1\<rparr>))))))))
       = invincibleTimer (player w)"
  by (rule sections_rel[of "\<lambda>a b. invincibleTimer (player a) > 0 \<longrightarrow>
        hp (player b) = hp (player a) \<and> invincibleTimer (player b) = invincibleTimer (player a)"])
     (simp_all add: handlePlayerDeath_def)

lemma invincible_update:
  "invincibleTimer (player w) > 0 \<Longrightarrow> hp (player (update c g i w)) = hp (player w)"
  using invincible_sections[of w c i]
  by (cases "g = PLAYING") (simp_all add: update_playing update_not_playing)

lemma score_sections:
  "score (player w) \<le> score (player (particlesUpdate (enemiesUpdate c (bulletsUpdate c
           (shooting c i (pitfall c (playerPhysics c i (w\<lparr>tick := tick w + 1\<rparr>))))))))"
  by (rule sections_rel[of "\<lambda>a b. score (player a) \<le> score (player b)"])
     (simp_all add: hitEnemy_def Let_def killReward_def)

lemma score_update: "score (player w) \<le> score (player (update c g i w))"
  using score_sections[of w c i]
  by (cases "g = PLAYING") (simp_all add: update_playing update_not_playing)

lemma score_steps: "score (player w) \<le> score (player (steps c ss w))"
proof (induction ss arbitrary: w)
  case Nil
  show ?case by simp
next
  case (Cons s ss)
  obtain g i where s: "s = (g, i)" by (cases s)
  from Cons[of "update c g i w"] score_update[of w c g i] show ?case by (simp add: s)
qed

lemma camera_update:
  "camera (update c g i w) =
     (if g = PLAYING then
        (let px = x (player (update c g i w));
             cam = (if px > camera w + CAMERA_OFFSET_X c then px - CAMERA_OFFSET_X c
                    else camera w)
         in if cam > LEVEL_LENGTH c - CANVAS_WIDTH c then LEVEL_LENGTH c - CANVAS_WIDTH c
            else cam)
      else camera w)"
proof (cases "g = PLAYING")
  case True
  show ?thesis
    unfolding True update_playing by (simp add: cameraFollow_def Let_def)
next
  case False
  then show ?thesis by (simp add: update_not_playing)
qed

lemma camera_step:
  assumes "cameraInRange c w"
  shows "cameraInRange c (update c g i w) \<and> camera w \<le> camera (update c g i w)"
  using assms unfolding cameraInRange_def camera_update[of c g i w] by (auto simp add: Let_def)

lemma camera_steps:
  "cameraInRange c w \<Longrightarrow> cameraInRange c (steps c ss w) \<and> camera w \<le> camera (steps c ss w)"
proof (induction ss arbitrary: w)
  case Nil
  then show ?case by simp
next
  case (Cons s ss)
  obtain g i where s: "s = (g, i)" by (cases s)
  from Cons.prems have a: "cameraInRange c (update c g i w)" "camera w \<le> camera (update c g i w)"
    using camera_step by blast+
  from Cons.IH[OF a(1)] a(2) show ?case by (simp add: s)
qed

lemma checkPlatforms_append:
  "checkPlatforms (pre @ post) p = checkPlatforms post (checkPlatforms pre p)"
  by (induction pre arbitrary: p) simp_all

lemma landing_at_rest: "vy p \<le> 0 \<Longrightarrow> landing p plat = p"
  by (simp add: landing_def)

lemma checkPlatforms_at_rest: "vy p \<le> 0 \<Longrightarrow> checkPlatforms plats p = p"
  by (induction plats arbitrary: p) (simp_all add: landing_at_rest)

section \<open>Platform landing\<close>

text \<open>
  C1. For every platform landing during a step: when the loop over the platforms reaches
  a platform that the player's box overlaps, with the player moving downward
  (\<open>vy > 0\<close>) and the bottom edge of the previous position (\<open>y - vy + height\<close>) at
  or above the platform's top, then after the whole loop the player's bottom edge is
  exactly at that platform's top, \<open>vy\<close> is 0 and \<open>isGrounded\<close> is true. The
  platforms before it are \<open>pre\<close>, those after it \<open>post\<close>; the state in which the
  loop reaches the platform is \<open>checkPlatforms pre p\<close>, which is \<open>p\<close> itself
  unless an earlier platform was landed on (and then \<open>vy\<close> is 0 and no other landing
  happens in this step).
\<close>

theorem landing_rests_on_platform:
  assumes "checkCollision (checkPlatforms pre p) plat"
    and "vy (checkPlatforms pre p) > 0"
    and "y (checkPlatforms pre p) - vy (checkPlatforms pre p) + height (checkPlatforms pre p)
           \<le> y plat"
  shows "y (checkPlatforms (pre @ plat # post) p) + height (checkPlatforms (pre @ plat # post) p)
           = y plat \<and>
         vy (checkPlatforms (pre @ plat # post) p) = 0 \<and>
         isGrounded (checkPlatforms (pre @ plat # post) p)"
proof -
  let ?q = "checkPlatforms pre p"
  let ?r = "?q\<lparr>y := y plat - height ?q, vy := 0, isGrounded := True\<rparr>"
  from assms have "landing ?q plat = ?r"
    by (simp add: landing_def checkCollision_def)
  moreover have "checkPlatforms post ?r = ?r"
    by (rule checkPlatforms_at_rest) simp
  ultimately have "checkPlatforms (pre @ plat # post) p = ?r"
    by (simp add: checkPlatforms_append)
  then show ?thesis by simp
qed

theorem landing_rests_on_platform_witness:
  "checkCollision (checkPlatforms [addGround exampleConstants 0 800] fallingPlayer)
     (addPlat 400 400 100) \<and>
   vy (checkPlatforms [addGround exampleConstants 0 800] fallingPlayer) > 0 \<and>
   y (checkPlatforms [addGround exampleConstants 0 800] fallingPlayer)
     - vy (checkPlatforms [addGround exampleConstants 0 800] fallingPlayer)
     + height (checkPlatforms [addGround exampleConstants 0 800] fallingPlayer)
     \<le> y (addPlat 400 400 100) \<and>
   y (checkPlatforms ([addGround exampleConstants 0 800] @ addPlat 400 400 100 #
        [addPlat 600 300 100]) fallingPlayer) = 352 \<and>
   vy (checkPlatforms ([addGround exampleConstants 0 800] @ addPlat 400 400 100 #
        [addPlat 600 300 100]) fallingPlayer) = 0 \<and>
   isGrounded (checkPlatforms ([addGround exampleConstants 0 800] @ addPlat 400 400 100 #
        [addPlat 600 300 100]) fallingPlayer)"
proof -
  have h: "checkPlatforms [addGround exampleConstants 0 800] fallingPlayer = fallingPlayer"
    by (simp add: landing_def example_defs)
  have a: "checkCollision (checkPlatforms [addGround exampleConstants 0 800] fallingPlayer)
             (addPlat 400 400 100)"
    unfolding h by (simp add: checkCollision_def example_defs)
  have b: "vy (checkPlatforms [addGround exampleConstants 0 800] fallingPlayer) > 0"
    unfolding h by (simp add: example_defs)
  have d: "y (checkPlatforms [addGround exampleConstants 0 800] fallingPlayer)
     - vy (checkPlatforms [addGround exampleConstants 0 800] fallingPlayer)
     + height (checkPlatforms [addGround exampleConstants 0 800] fallingPlayer)
     \<le> y (addPlat 400 400 100)"
    unfolding h by (simp add: example_defs)
  have e: "height (checkPlatforms ([addGround exampleConstants 0 800] @ addPlat 400 400 100 #
        [addPlat 600 300 100]) fallingPlayer) = 48"
    by (simp add: landing_def example_defs)
  from landing_rests_on_platform[OF a b d, of "[addPlat 600 300 100]"] a b d e
  show ?thesis by (simp add: addPlat_def)
qed

section \<open>Death of the player\<close>

lemma pitfall_damage:
  "invincibleTimer (player w) \<le> 0 \<Longrightarrow> y (player w) > CANVAS_HEIGHT c \<Longrightarrow>
     hp (player (pitfall c w)) = hp (player w) - 1"
  by (simp add: pitfall_def handlePlayerDeath_def Let_def respawn_def)

lemma bullet_damage:
  "invincibleTimer (player w) \<le> 0 \<Longrightarrow> owner b = OwnerEnemy \<Longrightarrow>
   \<not> offScreenOrDead c (camera w) (moveBullet b) \<Longrightarrow> checkCollision (moveBullet b) (player w) \<Longrightarrow>
     hp (player (snd (bulletStep c b w))) = hp (player w) - 1"
  by (simp add: bulletStep_def Let_def moveBullet_def handlePlayerDeath_def respawn_def)

lemma enemyActive_keeps [simp]:
  "player (snd (enemyActive c e w)) = player w"
  "isDead (fst (enemyActive c e w)) = isDead e"
  "etype (fst (enemyActive c e w)) = etype e"
proof -
  have r: "isDead (floorClamps plats a) = isDead a \<and> etype (floorClamps plats a) = etype a"
    for plats a
    by (induction plats arbitrary: a) (simp_all add: floorClamp_def)
  show "player (snd (enemyActive c e w)) = player w"
    by (simp add: enemyActive_def enemyShooting_def Let_def)
  show "isDead (fst (enemyActive c e w)) = isDead e"
    by (simp add: enemyActive_def enemyShooting_def runnerMove_def Let_def r)
  show "etype (fst (enemyActive c e w)) = etype e"
    by (simp add: enemyActive_def enemyShooting_def runnerMove_def Let_def r)
qed

lemma touch_damage:
  "invincibleTimer (player w) \<le> 0 \<Longrightarrow> \<not> isDead e \<Longrightarrow>
   checkCollision (player w) (fst (enemyActive c e w)) \<Longrightarrow>
     hp (player (snd (enemyStep c e w))) = hp (player w) - 1"
  by (simp add: enemyStep_def case_prod_beta) (simp add: handlePlayerDeath_def Let_def respawn_def)

text \<open>
  C4. Every accepted damage event costs exactly one \<open>hp\<close>: a call of
  \<^verbatim>\<open>handlePlayerDeath\<close> while \<open>invincibleTimer \<le> 0\<close>, and so each of the three places
  that call it (the pitfall test, an enemy's bullet that overlaps the player, an enemy
  that is not dead and overlaps the player). While \<open>invincibleTimer > 0\<close> the call
  changes nothing at all, and a whole step that starts with \<open>invincibleTimer > 0\<close> leaves
  \<open>hp\<close> as it was.
\<close>

theorem damage_costs_one_life:
  "(invincibleTimer (player w) \<le> 0 \<longrightarrow>
      hp (player (handlePlayerDeath w)) = hp (player w) - 1 \<and>
      (y (player w) > CANVAS_HEIGHT c \<longrightarrow> hp (player (pitfall c w)) = hp (player w) - 1) \<and>
      (owner b = OwnerEnemy \<and> \<not> offScreenOrDead c (camera w) (moveBullet b) \<and>
       checkCollision (moveBullet b) (player w) \<longrightarrow>
         hp (player (snd (bulletStep c b w))) = hp (player w) - 1) \<and>
      (\<not> isDead e \<and> checkCollision (player w) (fst (enemyActive c e w)) \<longrightarrow>
         hp (player (snd (enemyStep c e w))) = hp (player w) - 1)) \<and>
   (invincibleTimer (player w) > 0 \<longrightarrow>
      handlePlayerDeath w = w \<and> hp (player (update c g i w)) = hp (player w))"
proof -
  have "hp (player (handlePlayerDeath w)) = hp (player w) - 1"
    if "invincibleTimer (player w) \<le> 0"
    using that by (simp add: handlePlayerDeath_def Let_def respawn_def)
  moreover have "handlePlayerDeath w = w" if "invincibleTimer (player w) > 0"
    using that by (simp add: handlePlayerDeath_def)
  ultimately show ?thesis
    using pitfall_damage[of w c] bullet_damage[of w b c] touch_damage[of w e c]
      invincible_update[of w c g i]
    by blast
qed

theorem damage_costs_one_life_witness:
  "invincibleTimer (player pitWorld) \<le> 0 \<and>
   hp (player pitWorld) = 3 \<and>
   hp (player (handlePlayerDeath pitWorld)) = 2 \<and>
   y (player pitWorld) > CANVAS_HEIGHT exampleConstants \<and>
   hp (player (pitfall exampleConstants pitWorld)) = 2 \<and>
   owner strayBullet = OwnerEnemy \<and>
   \<not> offScreenOrDead exampleConstants (camera pitWorld) (moveBullet strayBullet) \<and>
   checkCollision (moveBullet strayBullet) (player pitWorld) \<and>
   hp (player (snd (bulletStep exampleConstants strayBullet pitWorld))) = 2 \<and>
   \<not> isDead sentry \<and>
   checkCollision (player pitWorld) (fst (enemyActive exampleConstants sentry pitWorld)) \<and>
   hp (player (snd (enemyStep exampleConstants sentry pitWorld))) = 2 \<and>
   invincibleTimer (player shieldedWorld) > 0 \<and>
   handlePlayerDeath shieldedWorld = shieldedWorld \<and>
   hp (player (update exampleConstants PLAYING noInputs shieldedWorld)) = 3"
proof -
  have a: "invincibleTimer (player pitWorld) \<le> 0" "hp (player pitWorld) = 3"
    "y (player pitWorld) > CANVAS_HEIGHT exampleConstants"
    by (simp_all add: example_defs)
  have b: "owner strayBullet = OwnerEnemy"
    "\<not> offScreenOrDead exampleConstants (camera pitWorld) (moveBullet strayBullet)"
    "checkCollision (moveBullet strayBullet) (player pitWorld)"
    by (simp_all add: example_defs offScreenOrDead_def moveBullet_def
        checkCollision_def)
  have d: "\<not> isDead sentry"
    "checkCollision (player pitWorld) (fst (enemyActive exampleConstants sentry pitWorld))"
    by (simp_all add: example_defs enemyActive_def enemyShooting_def Let_def
        checkCollision_def)
  have e: "invincibleTimer (player shieldedWorld) > 0" "hp (player shieldedWorld) = 3"
    by (simp_all add: example_defs)
  from damage_costs_one_life[of pitWorld exampleConstants strayBullet sentry]
    damage_costs_one_life[of shieldedWorld exampleConstants _ _ PLAYING noInputs]
    a b d e
  show ?thesis by simp
qed

text \<open>
  C10. The death handler never changes the score or the platforms, whether it accepts
  the call or not. Of the whole world it can change only the player's \<open>hp\<close>, position
  (\<open>x\<close>, \<open>y\<close>), velocity (\<open>vx\<close>, \<open>vy\<close>) and \<open>invincibleTimer\<close>, the particles
  (with the random numbers drawn for them) and the log of callback calls: putting these
  back gives the world before the call. The calls it logs are \<^verbatim>\<open>setLives\<close> with the
  new \<open>hp\<close> and, when that is \<open>\<le> 0\<close>, \<^verbatim>\<open>setGameState(GAME_OVER)\<close>.
\<close>

theorem handlePlayerDeath_frame:
  "score (player (handlePlayerDeath w)) = score (player w) \<and>
   platforms (handlePlayerDeath w) = platforms w \<and>
   (handlePlayerDeath w)
     \<lparr>player := (player (handlePlayerDeath w))
        \<lparr>hp := hp (player w), x := x (player w), y := y (player w),
         vx := vx (player w), vy := vy (player w),
         invincibleTimer := invincibleTimer (player w)\<rparr>,
      particles := particles w, events := events w, rnd := rnd w\<rparr> = w \<and>
   (events (handlePlayerDeath w) = events w \<or>
    events (handlePlayerDeath w) = events w @ [SetLives (hp (player w) - 1)] \<or>
    events (handlePlayerDeath w) =
      events w @ [SetLives (hp (player w) - 1), SetGameState GAME_OVER])"
  by (simp add: handlePlayerDeath_def Let_def respawn_def)

theorem handlePlayerDeath_frame_witness:
  "score (player (handlePlayerDeath lastLifeWorld)) = score (player lastLifeWorld) \<and>
   platforms (handlePlayerDeath lastLifeWorld) = platforms lastLifeWorld \<and>
   events (handlePlayerDeath lastLifeWorld) = [SetLives 0, SetGameState GAME_OVER] \<and>
   length (particles (handlePlayerDeath lastLifeWorld)) = 8"
  using handlePlayerDeath_frame[of lastLifeWorld]
  by (simp add: handlePlayerDeath_def Let_def example_defs createParticles_def eval_nat_numeral)

section \<open>The invincibility timer\<close>

text \<open>
  C9. The player's \<open>invincibleTimer\<close> is never negative: it is 0 after \<^verbatim>\<open>initLevel\<close>,
  every step keeps it \<open>\<ge> 0\<close> (it is only decremented while positive and otherwise only
  set to 180), and so it is \<open>\<ge> 0\<close> after any number of steps from the initial level,
  whatever the inputs and the captured game states.
\<close>

theorem invincibleTimer_never_negative:
  "invincibleTimer (player (initLevel c w0)) = 0 \<and>
   (\<forall>g i w. 0 \<le> invincibleTimer (player w) \<longrightarrow>
        0 \<le> invincibleTimer (player (update c g i w))) \<and>
   (\<forall>ss. 0 \<le> invincibleTimer (player (steps c ss (initLevel c w0))))"
proof -
  have init: "invincibleTimer (player (initLevel c w0)) = 0"
    by (simp add: initLevel_def initialPlayer_def)
  then have "0 \<le> invincibleTimer (player (steps c ss (initLevel c w0)))" for ss
    by (intro timer_nonneg_steps) simp
  with init show ?thesis by (simp add: timer_nonneg_update)
qed

theorem invincibleTimer_never_negative_witness:
  "0 \<le> invincibleTimer (player pitWorld) \<and>
   0 \<le> invincibleTimer (player (update exampleConstants PLAYING noInputs pitWorld)) \<and>
   0 \<le> invincibleTimer (player (steps exampleConstants [(PLAYING, noInputs), (PLAYING, aimUp)]
           (initLevel exampleConstants emptyWorld)))"
proof -
  have "0 \<le> invincibleTimer (player pitWorld)"
    by (simp add: example_defs)
  with invincibleTimer_never_negative[of exampleConstants emptyWorld]
  show ?thesis by blast
qed

section \<open>The camera\<close>

text \<open>
  C6. When the level is at least as long as the canvas is wide, the camera's \<open>x\<close>
  stays in \<open>[0, LEVEL_LENGTH - CANVAS_WIDTH]\<close> after every step of a session that
  starts with \<^verbatim>\<open>initLevel\<close>, and never decreases from one step to a later one. In a
  single step from a world whose camera is in that range, the camera moves only when the
  player's \<open>x\<close> (as it is at the end of the step) exceeds the old camera \<open>x\<close> plus
  \<open>CAMERA_OFFSET_X\<close>; it then moves to the player's \<open>x\<close> minus the offset, capped
  at \<open>LEVEL_LENGTH - CANVAS_WIDTH\<close>.
\<close>

theorem camera_follows_forward:
  assumes "CANVAS_WIDTH c \<le> LEVEL_LENGTH c"
  shows "(\<forall>ss. 0 \<le> camera (steps c ss (initLevel c w0)) \<and>
               camera (steps c ss (initLevel c w0)) \<le> LEVEL_LENGTH c - CANVAS_WIDTH c) \<and>
         (\<forall>ss ss'. camera (steps c ss (initLevel c w0))
                      \<le> camera (steps c (ss @ ss') (initLevel c w0))) \<and>
         (\<forall>g i w. 0 \<le> camera w \<and> camera w \<le> LEVEL_LENGTH c - CANVAS_WIDTH c \<longrightarrow>
              camera w \<le> camera (update c g i w) \<and>
              camera (update c g i w) \<le> LEVEL_LENGTH c - CANVAS_WIDTH c \<and>
              camera (update c g i w) =
                (if g = PLAYING \<and> x (player (update c g i w)) > camera w + CAMERA_OFFSET_X c
                 then min (x (player (update c g i w)) - CAMERA_OFFSET_X c)
                          (LEVEL_LENGTH c - CANVAS_WIDTH c)
                 else camera w))"
proof -
  from assms have init: "cameraInRange c (initLevel c w0)"
    by (simp add: cameraInRange_def initLevel_def)
  have reach: "cameraInRange c (steps c ss (initLevel c w0))" for ss
    using camera_steps[OF init] by blast
  have mono: "camera (steps c ss (initLevel c w0)) \<le> camera (steps c (ss @ ss') (initLevel c w0))"
    for ss ss'
    using camera_steps[OF reach[of ss], of ss'] by (simp add: steps_append)
  have one: "camera w \<le> camera (update c g i w) \<and>
              camera (update c g i w) \<le> LEVEL_LENGTH c - CANVAS_WIDTH c \<and>
              camera (update c g i w) =
                (if g = PLAYING \<and> x (player (update c g i w)) > camera w + CAMERA_OFFSET_X c
                 then min (x (player (update c g i w)) - CAMERA_OFFSET_X c)
                          (LEVEL_LENGTH c - CANVAS_WIDTH c)
                 else camera w)"
    if "0 \<le> camera w \<and> camera w \<le> LEVEL_LENGTH c - CANVAS_WIDTH c" for g i w
    using that unfolding camera_update[of c g i w] by (auto simp add: Let_def min_def)
  from reach mono one show ?thesis unfolding cameraInRange_def by blast
qed

theorem camera_follows_forward_witness:
  "CANVAS_WIDTH exampleConstants \<le> LEVEL_LENGTH exampleConstants \<and>
   0 \<le> camera (steps exampleConstants [(PLAYING, aimUp)] (initLevel exampleConstants emptyWorld)) \<and>
   camera (steps exampleConstants [(PLAYING, aimUp)] (initLevel exampleConstants emptyWorld))
     \<le> 3200 \<and>
   camera (steps exampleConstants [(PLAYING, aimUp)] (initLevel exampleConstants emptyWorld))
     \<le> camera (steps exampleConstants ([(PLAYING, aimUp)] @ [(PLAYING, noInputs)])
           (initLevel exampleConstants emptyWorld)) \<and>
   0 \<le> camera emptyWorld \<and>
   camera emptyWorld \<le> LEVEL_LENGTH exampleConstants - CANVAS_WIDTH exampleConstants \<and>
   camera emptyWorld \<le> camera (update exampleConstants PLAYING noInputs emptyWorld)"
proof -
  have a: "CANVAS_WIDTH exampleConstants \<le> LEVEL_LENGTH exampleConstants"
    "LEVEL_LENGTH exampleConstants - CANVAS_WIDTH exampleConstants = 3200"
    by (simp_all add: exampleConstants_def)
  have b: "0 \<le> camera emptyWorld \<and>
    camera emptyWorld \<le> LEVEL_LENGTH exampleConstants - CANVAS_WIDTH exampleConstants"
    by (simp add: emptyWorld_def exampleConstants_def)
  from camera_follows_forward[OF a(1), of emptyWorld] a b show ?thesis
    by (metis (no_types, lifting))
qed

section \<open>Shooting\<close>

text \<open>
  C7. In the shooting section of a step the cooldown is first decremented if it is
  positive; a shot is fired exactly when \<open>shoot\<close> is held and the cooldown is then
  \<open>\<le> 0\<close>. On fire, one bullet is appended, with \<open>owner = player\<close>, \<open>life = 100\<close>
  and position the centre of the player, and the cooldown is set to
  \<open>SHOOT_COOLDOWN\<close>; with \<open>facingVertical = 1\<close> and neither left nor right held the
  bullet has \<open>vx = 0\<close>, \<open>vy = - BULLET_SPEED\<close>. Otherwise no bullet is added.
\<close>

theorem player_shot:
  "(shoot i \<and> shootCooldown (coolDown (player w)) \<le> 0 \<longrightarrow>
      (\<exists>b. bullets (shooting c i w) = bullets w @ [b] \<and>
           owner b = OwnerPlayer \<and> life b = 100 \<and>
           x b = x (player w) + width (player w) / 2 \<and>
           y b = y (player w) + height (player w) / 2 \<and>
           (facingVertical (player w) = 1 \<and> \<not> left i \<and> \<not> right i \<longrightarrow>
              vx b = 0 \<and> vy b = - BULLET_SPEED c)) \<and>
      shootCooldown (player (shooting c i w)) = SHOOT_COOLDOWN c) \<and>
   (\<not> (shoot i \<and> shootCooldown (coolDown (player w)) \<le> 0) \<longrightarrow>
      bullets (shooting c i w) = bullets w \<and>
      shootCooldown (player (shooting c i w)) = shootCooldown (coolDown (player w))) \<and>
   shootCooldown (coolDown (player w)) =
     (if shootCooldown (player w) > 0 then shootCooldown (player w) - 1
      else shootCooldown (player w))"
  by (simp add: shooting_def Let_def coolDown_def playerBullet_def shootDirection_def)

theorem player_shot_witness:
  "shoot aimUp \<and> shootCooldown (coolDown (player aimingUpWorld)) \<le> 0 \<and>
   facingVertical (player aimingUpWorld) = 1 \<and> \<not> left aimUp \<and> \<not> right aimUp \<and>
   bullets (shooting exampleConstants aimUp aimingUpWorld) =
     [\<lparr>x = 112, y = 124, width = 8, height = 8, vx = 0, vy = -10, isDead = False,
       owner = OwnerPlayer, life = 100\<rparr>] \<and>
   shootCooldown (player (shooting exampleConstants aimUp aimingUpWorld)) = 10"
proof -
  have "bullets (shooting exampleConstants aimUp aimingUpWorld) =
     [\<lparr>x = 112, y = 124, width = 8, height = 8, vx = 0, vy = -10, isDead = False,
       owner = OwnerPlayer, life = 100\<rparr>]"
    by (simp add: shooting_def Let_def coolDown_def playerBullet_def shootDirection_def
        example_defs)
  moreover have "shoot aimUp \<and> shootCooldown (coolDown (player aimingUpWorld)) \<le> 0 \<and>
   facingVertical (player aimingUpWorld) = 1 \<and> \<not> left aimUp \<and> \<not> right aimUp"
    by (simp add: coolDown_def example_defs)
  moreover have "SHOOT_COOLDOWN exampleConstants = 10"
    by (simp add: exampleConstants_def)
  ultimately show ?thesis
    using player_shot[of aimUp aimingUpWorld exampleConstants] by simp
qed

lemma enemyStep_bullets:
  "bullets (snd (enemyStep c e w)) = (if isDead e then bullets w else bullets (snd (enemyActive c e w)))"
  "fst (enemyStep c e w) = (if isDead e then e else fst (enemyActive c e w))"
  by (simp_all add: enemyStep_def case_prod_beta)

lemma enemyActive_shooter:
  "etype e = Turret \<or> etype e = Boss \<Longrightarrow>
     enemyActive c e w =
       (if \<bar>x (player w) - x e\<bar> < 600 then enemyShooting c e w else (e, w))"
  by (auto simp add: enemyActive_def Let_def)

text \<open>
  What the code does. A turret or a boss that is not dead adds a bullet in its pass of
  the enemy loop exactly when it is within the activation radius of the player
  (\<open>\<bar>player.x - enemy.x\<bar> < 600\<close>) and its cooldown, decremented in this pass,
  is \<open>\<le> 0\<close>. The bullet has \<open>owner = enemy\<close>, \<open>life = 200\<close> and velocity
  \<open>(cos angle * speed, sin angle * speed)\<close>, where \<open>speed\<close> is half of
  \<open>BULLET_SPEED\<close> and \<open>angle\<close> is \<^verbatim>\<open>atan2\<close> of the vector from the point
  \<open>(enemy.x, enemy.y + 10)\<close> to the centre of the player; the cooldown becomes 120.
\<close>

lemma enemy_shot:
  assumes "\<not> isDead e" and "etype e = Turret \<or> etype e = Boss"
  shows
   "(\<bar>x (player w) - x e\<bar> < 600 \<and> shootCooldown e - 1 \<le> 0 \<longrightarrow>
       (\<exists>b. bullets (snd (enemyStep c e w)) = bullets w @ [b] \<and>
            owner b = OwnerEnemy \<and> life b = 200 \<and>
            vx b = cos (aimAngle (player w) e) * (BULLET_SPEED c * 0.5) \<and>
            vy b = sin (aimAngle (player w) e) * (BULLET_SPEED c * 0.5)) \<and>
       shootCooldown (fst (enemyStep c e w)) = 120) \<and>
    (\<not> (\<bar>x (player w) - x e\<bar> < 600 \<and> shootCooldown e - 1 \<le> 0) \<longrightarrow>
       bullets (snd (enemyStep c e w)) = bullets w) \<and>
    aimAngle (player w) e =
      atan2 ((y (player w) + height (player w) / 2) - (y e + 10))
            ((x (player w) + width (player w) / 2) - x e)"
  using assms
  by (simp add: enemyStep_bullets enemyActive_shooter enemyShooting_def enemyBullet_def Let_def
       aimAngle_def)

lemma enemy_shot_example:
  "\<not> isDead gunner \<and> (etype gunner = Turret \<or> etype gunner = Boss) \<and>
   \<bar>x (player emptyWorld) - x gunner\<bar> < 600 \<and> shootCooldown gunner - 1 \<le> 0 \<and>
   aimAngle (player emptyWorld) gunner = pi \<and>
   bullets (snd (enemyStep exampleConstants gunner emptyWorld)) =
     [\<lparr>x = 412, y = 124, width = 8, height = 8, vx = -5, vy = 0, isDead = False,
       owner = OwnerEnemy, life = 200\<rparr>] \<and>
   shootCooldown (fst (enemyStep exampleConstants gunner emptyWorld)) = 120"
proof -
  have a: "\<not> isDead gunner" "etype gunner = Turret \<or> etype gunner = Boss"
    "\<bar>x (player emptyWorld) - x gunner\<bar> < 600" "shootCooldown gunner - 1 \<le> 0"
    by (simp_all add: example_defs)
  have b: "aimAngle (player emptyWorld) gunner = pi"
    by (simp add: aimAngle_def atan2_def example_defs)
  have "bullets (snd (enemyStep exampleConstants gunner emptyWorld)) =
     [enemyBullet exampleConstants (player emptyWorld) (gunner\<lparr>shootCooldown := -1\<rparr>)]"
    by (simp add: enemyStep_bullets enemyActive_shooter enemyShooting_def Let_def
        example_defs)
  moreover have "aimAngle (player emptyWorld) (gunner\<lparr>shootCooldown := -1\<rparr>) = pi"
    using b by (simp add: aimAngle_def)
  ultimately have d: "bullets (snd (enemyStep exampleConstants gunner emptyWorld)) =
     [\<lparr>x = 412, y = 124, width = 8, height = 8, vx = -5, vy = 0, isDead = False,
       owner = OwnerEnemy, life = 200\<rparr>]"
    by (simp add: enemyBullet_def Let_def example_defs)
  from enemy_shot[OF a(1) a(2), of emptyWorld exampleConstants] a b d
  show ?thesis by simp
qed

lemma tower_shot:
  "bullets (snd (enemyStep exampleConstants tower overheadWorld)) =
     [enemyBullet exampleConstants (player overheadWorld) (tower\<lparr>shootCooldown := -1\<rparr>)]"
  by (simp add: enemyStep_bullets enemyActive_shooter enemyShooting_def Let_def example_defs)

lemma tower_angle:
  "aimAngle (player overheadWorld) (tower\<lparr>shootCooldown := -1\<rparr>) = arctan (- (31 / 2))"
  by (simp add: aimAngle_def atan2_def example_defs)

text \<open>
  C8. The bullet starts at the muzzle, \<open>(enemy.x + enemy.width / 2, enemy.y + 10)\<close>,
  the point about which \<^verbatim>\<open>draw\<close> turns the barrel; the angle is taken from
  \<open>(enemy.x, enemy.y + 10)\<close>, half the enemy's width to the left of it. For a player
  whose centre is straight above the muzzle of a turret (\<open>overheadWorld\<close>, \<open>tower\<close>)
  the angle from the muzzle to the player's centre is \<open>- \<pi> / 2\<close> and gives
  \<open>vx = 0\<close>; the bullet that the code fires from the muzzle has \<open>vx > 0\<close> and
  passes to the right of the player's centre.
\<close>

theorem turret_aims_beside_muzzle:
  "x (player overheadWorld) + width (player overheadWorld) / 2 = 412 \<and>
   y (player overheadWorld) + height (player overheadWorld) / 2 = 124 \<and>
   \<not> isDead tower \<and> etype tower = Turret \<and>
   length (bullets (snd (enemyStep exampleConstants tower overheadWorld))) = 1 \<and>
   x (hd (bullets (snd (enemyStep exampleConstants tower overheadWorld)))) = 412 \<and>
   y (hd (bullets (snd (enemyStep exampleConstants tower overheadWorld)))) = 310 \<and>
   cos (atan2 (124 - 310) (412 - 412)) * (BULLET_SPEED exampleConstants * 0.5) = 0 \<and>
   vx (hd (bullets (snd (enemyStep exampleConstants tower overheadWorld)))) =
     cos (atan2 (124 - 310) (412 - 400)) * (BULLET_SPEED exampleConstants * 0.5) \<and>
   vx (hd (bullets (snd (enemyStep exampleConstants tower overheadWorld)))) > 0"
proof -
  have pos: "0 < cos (arctan (- (31 / 2)))"
    by (rule cos_gt_zero_pi) (rule arctan_lbound arctan_ubound)+
  have a: "atan2 (124 - 310) (412 - 400) = arctan (- (31 / 2))"
    "atan2 (124 - 310) (412 - 412) = - pi / 2"
    by (simp_all add: atan2_def)
  have b: "vx (hd (bullets (snd (enemyStep exampleConstants tower overheadWorld)))) =
             cos (arctan (- (31 / 2))) * 5"
    unfolding tower_shot by (simp add: enemyBullet_def Let_def tower_angle) (simp add: example_defs)
  have d: "x (hd (bullets (snd (enemyStep exampleConstants tower overheadWorld)))) = 412"
    "y (hd (bullets (snd (enemyStep exampleConstants tower overheadWorld)))) = 310"
    unfolding tower_shot by (simp_all add: enemyBullet_def Let_def example_defs)
  have e: "x (player overheadWorld) + width (player overheadWorld) / 2 = 412"
    "y (player overheadWorld) + height (player overheadWorld) / 2 = 124"
    "\<not> isDead tower" "etype tower = Turret" "BULLET_SPEED exampleConstants * 0.5 = 5"
    by (simp_all add: example_defs)
  from pos have "0 < cos (arctan (- (31 / 2))) * 5" by simp
  with a b d e show ?thesis by (simp add: tower_shot)
qed

section \<open>Bullets that leave the collection\<close>




























section \<open>The last life\<close>

lemma fatalSignalled_refl: "fatalSignalled a a"
  by (simp add: fatalSignalled_def)

lemma fatalSignalled_trans:
  assumes "fatalSignalled a b" and "fatalSignalled b d"
  shows "fatalSignalled a d"
proof -
  from assms(1) obtain ev1 where 1: "events b = events a @ ev1" "hp (player b) \<le> hp (player a)"
    "hp (player b) < hp (player a) \<and> hp (player b) \<le> 0 \<longrightarrow> SetGameState GAME_OVER \<in> set ev1"
    unfolding fatalSignalled_def by blast
  from assms(2) obtain ev2 where 2: "events d = events b @ ev2" "hp (player d) \<le> hp (player b)"
    "hp (player d) < hp (player b) \<and> hp (player d) \<le> 0 \<longrightarrow> SetGameState GAME_OVER \<in> set ev2"
    unfolding fatalSignalled_def by blast
  have "events d = events a @ (ev1 @ ev2)" using 1(1) 2(1) by simp
  moreover have "hp (player d) \<le> hp (player a)" using 1(2) 2(2) by simp
  moreover have "SetGameState GAME_OVER \<in> set (ev1 @ ev2)"
    if "hp (player d) < hp (player a) \<and> hp (player d) \<le> 0"
  proof (cases "hp (player d) < hp (player b)")
    case True
    with that 2(3) show ?thesis by simp
  next
    case False
    with 2(2) have "hp (player d) = hp (player b)" by simp
    with that 1(3) show ?thesis by simp
  qed
  ultimately show ?thesis unfolding fatalSignalled_def by blast
qed

lemma fatalSignalled_death: "fatalSignalled w (handlePlayerDeath w)"
  by (simp add: fatalSignalled_def handlePlayerDeath_def Let_def respawn_def)

lemma fatalSignalled_hit: "fatalSignalled w (snd (hitEnemy e w))"
  by (simp add: fatalSignalled_def hitEnemy_def Let_def)

lemma fatalSignalled_sections:
  "fatalSignalled w (particlesUpdate (enemiesUpdate c (bulletsUpdate c
           (shooting c i (pitfall c (playerPhysics c i (w\<lparr>tick := tick w + 1\<rparr>)))))))"
  by (rule sections_rel[of fatalSignalled, OF fatalSignalled_refl fatalSignalled_trans
        fatalSignalled_hit fatalSignalled_death])
     (simp_all add: fatalSignalled_def)

lemma fatalSignalled_update: "fatalSignalled w (update c g i w)"
proof (cases "g = PLAYING")
  case True
  from fatalSignalled_sections[of w c i] show ?thesis
    unfolding True update_playing by (simp add: fatalSignalled_def)
next
  case False
  then show ?thesis by (simp add: update_not_playing fatalSignalled_refl)
qed

lemma lastLifeWorld_step:
  "hp (player (update exampleConstants PLAYING noInputs lastLifeWorld)) = -1"
  "events (update exampleConstants PLAYING noInputs lastLifeWorld) =
     [SetLives 0, SetGameState GAME_OVER, SetLives (-1), SetGameState GAME_OVER]"
  by (simp_all add: step_defs example_defs Let_def eval_nat_numeral
      cong: let_weak_cong prod.case_cong_weak option.case_cong_weak)

section \<open>Score and victory\<close>

lemma sameRoster_refl: "sameRoster es es"
  by (simp add: sameRoster_def list_all2_same)

lemma scoreDue_same: "scoreDue es es = 0"
  by (induction es) simp_all

lemma bossKilled_same: "\<not> bossKilled es es"
  by (induction es) simp_all

lemma sameRoster_trans: "sameRoster a b \<Longrightarrow> sameRoster b d \<Longrightarrow> sameRoster a d"
  unfolding sameRoster_def
  by (erule (1) list_all2_trans[rotated 1]) simp

lemma scoreDue_trans:
  "sameRoster a b \<Longrightarrow> sameRoster b d \<Longrightarrow> scoreDue a d = scoreDue a b + scoreDue b d"
  unfolding sameRoster_def
proof (induction a arbitrary: b d)
  case Nil
  then show ?case by simp
next
  case (Cons e a)
  from Cons.prems(1) obtain e' b' where b: "b = e' # b'" "etype e' = etype e" "isDead e \<longrightarrow> isDead e'"
    "list_all2 (\<lambda>e e'. etype e' = etype e \<and> (isDead e \<longrightarrow> isDead e')) a b'"
    by (auto simp add: list_all2_Cons1)
  from Cons.prems(2) b(1) obtain e'' d' where d: "d = e'' # d'" "etype e'' = etype e'"
    "isDead e' \<longrightarrow> isDead e''"
    "list_all2 (\<lambda>e e'. etype e' = etype e \<and> (isDead e \<longrightarrow> isDead e')) b' d'"
    by (auto simp add: list_all2_Cons1)
  from Cons.IH[OF b(4) d(4)] b d show ?case by auto
qed

lemma bossKilled_trans:
  "sameRoster a b \<Longrightarrow> sameRoster b d \<Longrightarrow> bossKilled a d \<Longrightarrow> bossKilled a b \<or> bossKilled b d"
  unfolding sameRoster_def
proof (induction a arbitrary: b d)
  case Nil
  then show ?case by simp
next
  case (Cons e a)
  from Cons.prems(1) obtain e' b' where b: "b = e' # b'" "etype e' = etype e" "isDead e \<longrightarrow> isDead e'"
    "list_all2 (\<lambda>e e'. etype e' = etype e \<and> (isDead e \<longrightarrow> isDead e')) a b'"
    by (auto simp add: list_all2_Cons1)
  from Cons.prems(2) b(1) obtain e'' d' where d: "d = e'' # d'" "etype e'' = etype e'"
    "isDead e' \<longrightarrow> isDead e''"
    "list_all2 (\<lambda>e e'. etype e' = etype e \<and> (isDead e \<longrightarrow> isDead e')) b' d'"
    by (auto simp add: list_all2_Cons1)
  from Cons.IH[OF b(4) d(4)] Cons.prems(3) b d show ?case by auto
qed

lemma tally_refl: "tally a a"
  by (simp add: tally_def sameRoster_refl scoreDue_same bossKilled_same)

lemma tally_trans:
  assumes "tally a b" and "tally b d"
  shows "tally a d"
proof -
  from assms(1) obtain ev1 where 1: "sameRoster (enemies a) (enemies b)"
    "score (player b) = score (player a) + scoreDue (enemies a) (enemies b)"
    "events b = events a @ ev1"
    "bossKilled (enemies a) (enemies b) \<longrightarrow> SetGameState VICTORY \<in> set ev1"
    unfolding tally_def by blast
  from assms(2) obtain ev2 where 2: "sameRoster (enemies b) (enemies d)"
    "score (player d) = score (player b) + scoreDue (enemies b) (enemies d)"
    "events d = events b @ ev2"
    "bossKilled (enemies b) (enemies d) \<longrightarrow> SetGameState VICTORY \<in> set ev2"
    unfolding tally_def by blast
  have "sameRoster (enemies a) (enemies d)" using 1(1) 2(1) by (rule sameRoster_trans)
  moreover have "score (player d) = score (player a) + scoreDue (enemies a) (enemies d)"
    using 1(2) 2(2) scoreDue_trans[OF 1(1) 2(1)] by simp
  moreover have "events d = events a @ (ev1 @ ev2)" using 1(3) 2(3) by simp
  moreover have "bossKilled (enemies a) (enemies d) \<longrightarrow> SetGameState VICTORY \<in> set (ev1 @ ev2)"
    using bossKilled_trans[OF 1(1) 2(1)] 1(4) 2(4) by auto
  ultimately show ?thesis unfolding tally_def by blast
qed

lemma hitEnemy_tally:
  assumes "\<not> isDead e"
  shows "etype (fst (hitEnemy e w)) = etype e \<and>
         enemies (snd (hitEnemy e w)) = enemies w \<and>
         score (player (snd (hitEnemy e w))) =
           score (player w) + (if isDead (fst (hitEnemy e w))
                               then (if etype e = Boss then 1000 else 100) else 0) \<and>
         (\<exists>ev. events (snd (hitEnemy e w)) = events w @ ev \<and>
               (etype e = Boss \<and> isDead (fst (hitEnemy e w)) \<longrightarrow>
                  SetGameState VICTORY \<in> set ev))"
  using assms by (simp add: hitEnemy_def Let_def killReward_def)

lemma hitEnemies_tally:
  "sameRoster es (fst (snd (hitEnemies b es w))) \<and>
   enemies (snd (snd (hitEnemies b es w))) = enemies w \<and>
   score (player (snd (snd (hitEnemies b es w)))) =
     score (player w) + scoreDue es (fst (snd (hitEnemies b es w))) \<and>
   (\<exists>ev. events (snd (snd (hitEnemies b es w))) = events w @ ev \<and>
         (bossKilled es (fst (snd (hitEnemies b es w))) \<longrightarrow> SetGameState VICTORY \<in> set ev))"
proof (induction es)
  case Nil
  show ?case by (simp add: sameRoster_def)
next
  case (Cons e es)
  show ?case
  proof (cases "\<not> isDead e \<and> checkCollision b e")
    case True
    then have "\<not> isDead e" by simp
    from hitEnemy_tally[OF this, of w] True show ?thesis
      by (auto simp add: case_prod_beta sameRoster_def list_all2_same scoreDue_same
          bossKilled_same)
  next
    case False
    with Cons show ?thesis
      by (auto simp add: case_prod_beta sameRoster_def)
  qed
qed

lemma bulletStep_tally: "tally w (snd (bulletStep c b w))"
proof -
  have death: "tally w (handlePlayerDeath w)"
    by (simp add: tally_def sameRoster_refl scoreDue_same bossKilled_same
        handlePlayerDeath_def Let_def respawn_def)
  from hitEnemies_tally[of "enemies w" "moveBullet b" w]
  have "tally w ((snd (snd (hitEnemies (moveBullet b) (enemies w) w)))
                    \<lparr>enemies := fst (snd (hitEnemies (moveBullet b) (enemies w) w))\<rparr>)"
    by (simp add: tally_def)
  with death show ?thesis
    by (simp add: bulletStep_def Let_def case_prod_beta tally_refl)
qed

lemma bulletsUpdate_tally: "tally w (bulletsUpdate c w)"
proof -
  have "tally w (snd (bulletsLoop c (bullets w) w))"
    by (rule bulletsLoop_steps[of tally, OF tally_refl tally_trans bulletStep_tally])
  then show ?thesis by (simp add: bulletsUpdate_def case_prod_beta tally_def)
qed

lemma enemyStep_enemy:
  "etype (fst (enemyStep c e w)) = etype e \<and> isDead (fst (enemyStep c e w)) = isDead e"
  by (simp add: enemyStep_def case_prod_beta)

lemma enemiesLoop_roster:
  "list_all2 (\<lambda>e e'. etype e' = etype e \<and> isDead e' = isDead e) es (fst (enemiesLoop c es w))"
  by (induction es arbitrary: w) (simp_all add: case_prod_beta enemyStep_enemy)

lemma unchanged_roster:
  assumes "list_all2 (\<lambda>e e'. etype e' = etype e \<and> isDead e' = isDead e) es es'"
  shows "sameRoster es es' \<and> scoreDue es es' = 0 \<and> \<not> bossKilled es es'"
  using assms unfolding sameRoster_def
  by (induction es es' rule: list_all2_induct) simp_all

lemma events_handlePlayerDeath: "\<exists>ev. events (handlePlayerDeath w) = events w @ ev"
  by (simp add: handlePlayerDeath_def Let_def)

lemma enemyStep_world:
  "enemies (snd (enemyStep c e w)) = enemies w \<and>
   score (player (snd (enemyStep c e w))) = score (player w) \<and>
   (\<exists>ev. events (snd (enemyStep c e w)) = events w @ ev)"
proof -
  have a: "enemies (snd (enemyActive c e w)) = enemies w"
    "score (player (snd (enemyActive c e w))) = score (player w)"
    "events (snd (enemyActive c e w)) = events w"
    by (simp_all add: enemyActive_def enemyShooting_def Let_def)
  show ?thesis
    using events_handlePlayerDeath[of "snd (enemyActive c e w)"]
    by (simp add: enemyStep_def case_prod_beta a)
qed

lemma same_enemies_tally:
  "enemies b = enemies a \<Longrightarrow> score (player b) = score (player a) \<Longrightarrow>
   \<exists>ev. events b = events a @ ev \<Longrightarrow> tally a b"
  by (auto simp add: tally_def sameRoster_refl scoreDue_same bossKilled_same)

lemma enemiesUpdate_tally: "tally w (enemiesUpdate c w)"
proof -
  let ?P = "\<lambda>a b. enemies b = enemies a \<and> score (player b) = score (player a) \<and>
                  (\<exists>ev. events b = events a @ ev)"
  have step: "?P v (snd (enemyStep c e v))" for e v
    by (rule enemyStep_world)
  have "?P w (snd (enemiesLoop c (enemies w) w))"
    by (rule enemiesLoop_steps[of ?P, OF _ _ step]) auto
  moreover note unchanged_roster[OF enemiesLoop_roster[of "enemies w" c w]]
  ultimately show ?thesis
    by (auto simp add: enemiesUpdate_def case_prod_beta tally_def)
qed

lemma sections_steps:
  assumes refl: "\<And>w. P w w"
    and trans: "\<And>a b d. P a b \<Longrightarrow> P b d \<Longrightarrow> P a d"
    and setTick: "\<And>w t. P w (w\<lparr>tick := t\<rparr>)"
    and physics: "\<And>w. P w (playerPhysics c i w)"
    and pit: "\<And>w. P w (pitfall c w)"
    and shots: "\<And>w. P w (shooting c i w)"
    and bu: "\<And>w. P w (bulletsUpdate c w)"
    and eu: "\<And>w. P w (enemiesUpdate c w)"
    and parts: "\<And>w. P w (particlesUpdate w)"
  shows "P w (particlesUpdate (enemiesUpdate c (bulletsUpdate c
           (shooting c i (pitfall c (playerPhysics c i (w\<lparr>tick := tick w + 1\<rparr>)))))))"
proof -
  let ?w0 = "w\<lparr>tick := tick w + 1\<rparr>"
  let ?w1 = "playerPhysics c i ?w0"
  let ?w2 = "pitfall c ?w1"
  let ?w3 = "shooting c i ?w2"
  let ?w4 = "bulletsUpdate c ?w3"
  let ?w5 = "enemiesUpdate c ?w4"
  have s1: "P w ?w1" using setTick[of w] physics[of ?w0] trans by blast
  with pit[of ?w1] have s2: "P w ?w2" using trans by blast
  with shots[of ?w2] have s3: "P w ?w3" using trans by blast
  with bu[of ?w3] have s4: "P w ?w4" using trans by blast
  with eu[of ?w4] have s5: "P w ?w5" using trans by blast
  with parts[of ?w5] show ?thesis using trans by blast
qed

lemma tally_sections:
  "tally w (particlesUpdate (enemiesUpdate c (bulletsUpdate c
           (shooting c i (pitfall c (playerPhysics c i (w\<lparr>tick := tick w + 1\<rparr>)))))))"
proof (rule sections_steps[of tally])
  show "tally v v" for v by (rule tally_refl)
  show "tally a d" if "tally a b" "tally b d" for a b d using that by (rule tally_trans)
  show "tally v (v\<lparr>tick := t\<rparr>)" for v t by (rule same_enemies_tally) simp_all
  show "tally v (playerPhysics c i v)" for v by (rule same_enemies_tally) simp_all
  show "tally v (pitfall c v)" for v
    by (rule same_enemies_tally) (simp_all add: pitfall_def events_handlePlayerDeath)
  show "tally v (shooting c i v)" for v by (rule same_enemies_tally) simp_all
  show "tally v (bulletsUpdate c v)" for v by (rule bulletsUpdate_tally)
  show "tally v (enemiesUpdate c v)" for v by (rule enemiesUpdate_tally)
  show "tally v (particlesUpdate v)" for v by (rule same_enemies_tally) simp_all
qed

lemma tally_update: "tally w (update c g i w)"
proof (cases "g = PLAYING")
  case True
  from tally_sections[of w c i] show ?thesis
    unfolding True update_playing by (simp add: tally_def)
next
  case False
  then show ?thesis by (simp add: update_not_playing tally_refl)
qed

lemma scoreDue_nonneg: "0 \<le> scoreDue es es'"
  by (induction es es' rule: scoreDue.induct) simp_all

lemma bossWorld_step:
  "enemies (update exampleConstants PLAYING noInputs bossWorld) =
     [\<lparr>x = 500, y = 300, width = 60, height = 80, vx = 0, vy = 0, isDead = True,
       direction = Left, shootCooldown = 60, hp = 0, etype = Boss\<rparr>]"
  "events (update exampleConstants PLAYING noInputs bossWorld) =
     [SetScore 1000, SetGameState VICTORY]"
  "score (player (update exampleConstants PLAYING noInputs bossWorld)) = 1000"
  by (simp_all add: step_defs example_defs Let_def eval_nat_numeral
      cong: let_weak_cong prod.case_cong_weak option.case_cong_weak)

section \<open>The state a step leaves\<close>

lemma gameStateAfter_last:
  "SetGameState (gameStateAfter g ev) \<in> set ev \<or>
   (gameStateAfter g ev = g \<and> (\<forall>s. SetGameState s \<notin> set ev))"
proof (induction ev arbitrary: g)
  case Nil
  show ?case by simp
next
  case (Cons e ev)
  show ?case
  proof (cases e)
    case (SetGameState s)
    with Cons[of s] show ?thesis by auto
  next
    case (SetScore n)
    with Cons[of g] show ?thesis by auto
  next
    case (SetLives n)
    with Cons[of g] show ?thesis by auto
  qed
qed

lemma gameStateAfter_only:
  assumes "SetGameState s \<in> set ev"
    and "\<forall>t. SetGameState t \<in> set ev \<longrightarrow> t = s \<or> t = r"
  shows "gameStateAfter g ev = s \<or> gameStateAfter g ev = r"
  using gameStateAfter_last[of g ev] assms by blast

lemma gameStateAfter_single:
  assumes "SetGameState s \<in> set ev"
    and "\<forall>t. SetGameState t \<in> set ev \<longrightarrow> t = s"
  shows "gameStateAfter g ev = s"
  using gameStateAfter_last[of g ev] assms by blast

lemma terminalCalls_refl: "terminalCalls a a"
  by (simp add: terminalCalls_def)

lemma terminalCalls_trans:
  assumes "terminalCalls a b" and "terminalCalls b d"
  shows "terminalCalls a d"
proof -
  from assms(1) obtain ev1 where 1: "events b = events a @ ev1" "hp (player b) \<le> hp (player a)"
    "\<forall>s. SetGameState s \<in> set ev1 \<longrightarrow> s = VICTORY \<or> s = GAME_OVER"
    "SetGameState GAME_OVER \<in> set ev1 \<longrightarrow> hp (player b) < hp (player a) \<and> hp (player b) \<le> 0"
    unfolding terminalCalls_def by blast
  from assms(2) obtain ev2 where 2: "events d = events b @ ev2" "hp (player d) \<le> hp (player b)"
    "\<forall>s. SetGameState s \<in> set ev2 \<longrightarrow> s = VICTORY \<or> s = GAME_OVER"
    "SetGameState GAME_OVER \<in> set ev2 \<longrightarrow> hp (player d) < hp (player b) \<and> hp (player d) \<le> 0"
    unfolding terminalCalls_def by blast
  have "events d = events a @ (ev1 @ ev2)" using 1(1) 2(1) by simp
  moreover have "hp (player d) \<le> hp (player a)" using 1(2) 2(2) by simp
  moreover have "\<forall>s. SetGameState s \<in> set (ev1 @ ev2) \<longrightarrow> s = VICTORY \<or> s = GAME_OVER"
    using 1(3) 2(3) by auto
  moreover have "SetGameState GAME_OVER \<in> set (ev1 @ ev2) \<longrightarrow>
      hp (player d) < hp (player a) \<and> hp (player d) \<le> 0"
    using 1(2,4) 2(2,4) by auto
  ultimately show ?thesis unfolding terminalCalls_def by blast
qed

lemma terminalCalls_death: "terminalCalls w (handlePlayerDeath w)"
  by (simp add: terminalCalls_def handlePlayerDeath_def Let_def respawn_def)

lemma terminalCalls_hit: "terminalCalls w (snd (hitEnemy e w))"
  by (simp add: terminalCalls_def hitEnemy_def Let_def)

lemma terminalCalls_sections:
  "terminalCalls w (particlesUpdate (enemiesUpdate c (bulletsUpdate c
           (shooting c i (pitfall c (playerPhysics c i (w\<lparr>tick := tick w + 1\<rparr>)))))))"
proof (rule sections_rel[of terminalCalls])
  show "terminalCalls v v" for v by (rule terminalCalls_refl)
  show "terminalCalls a d" if "terminalCalls a b" "terminalCalls b d" for a b d
    using that by (rule terminalCalls_trans)
  show "terminalCalls v (snd (hitEnemy e v))" for e v by (rule terminalCalls_hit)
  show "terminalCalls v (handlePlayerDeath v)" for v by (rule terminalCalls_death)
qed (simp_all add: terminalCalls_def)

lemma terminalCalls_update: "terminalCalls w (update c g i w)"
proof (cases "g = PLAYING")
  case True
  from terminalCalls_sections[of w c i] show ?thesis
    unfolding True update_playing by (simp add: terminalCalls_def)
next
  case False
  then show ?thesis by (simp add: update_not_playing terminalCalls_refl)
qed

lemma bossKilled_later:
  "sameRoster a b \<Longrightarrow> sameRoster b d \<Longrightarrow> bossKilled a b \<or> bossKilled b d \<Longrightarrow> bossKilled a d"
  unfolding sameRoster_def
proof (induction a arbitrary: b d)
  case Nil
  then show ?case by simp
next
  case (Cons e a)
  from Cons.prems(1) obtain e' b' where b: "b = e' # b'" "etype e' = etype e" "isDead e \<longrightarrow> isDead e'"
    "list_all2 (\<lambda>e e'. etype e' = etype e \<and> (isDead e \<longrightarrow> isDead e')) a b'"
    by (auto simp add: list_all2_Cons1)
  from Cons.prems(2) b(1) obtain e'' d' where d: "d = e'' # d'" "etype e'' = etype e'"
    "isDead e' \<longrightarrow> isDead e''"
    "list_all2 (\<lambda>e e'. etype e' = etype e \<and> (isDead e \<longrightarrow> isDead e')) b' d'"
    by (auto simp add: list_all2_Cons1)
  from Cons.IH[OF b(4) d(4)] Cons.prems(3) b d show ?case by auto
qed

lemma victoryByKill_refl: "victoryByKill a a"
  by (simp add: victoryByKill_def sameRoster_refl)

lemma victoryByKill_trans:
  assumes "victoryByKill a b" and "victoryByKill b d"
  shows "victoryByKill a d"
proof -
  from assms(1) obtain ev1 where 1: "sameRoster (enemies a) (enemies b)"
    "events b = events a @ ev1"
    "SetGameState VICTORY \<in> set ev1 \<longrightarrow> bossKilled (enemies a) (enemies b)"
    unfolding victoryByKill_def by blast
  from assms(2) obtain ev2 where 2: "sameRoster (enemies b) (enemies d)"
    "events d = events b @ ev2"
    "SetGameState VICTORY \<in> set ev2 \<longrightarrow> bossKilled (enemies b) (enemies d)"
    unfolding victoryByKill_def by blast
  have "sameRoster (enemies a) (enemies d)" using 1(1) 2(1) by (rule sameRoster_trans)
  moreover have "events d = events a @ (ev1 @ ev2)" using 1(2) 2(2) by simp
  moreover have "SetGameState VICTORY \<in> set (ev1 @ ev2) \<longrightarrow> bossKilled (enemies a) (enemies d)"
    using bossKilled_later[OF 1(1) 2(1)] 1(3) 2(3) by auto
  ultimately show ?thesis unfolding victoryByKill_def by blast
qed

lemma hitEnemy_victory:
  assumes "\<not> isDead e"
  shows "\<exists>ev. events (snd (hitEnemy e w)) = events w @ ev \<and>
              (SetGameState VICTORY \<in> set ev \<longrightarrow> etype e = Boss \<and> isDead (fst (hitEnemy e w)))"
  using assms by (simp add: hitEnemy_def Let_def)

lemma hitEnemies_victory:
  "\<exists>ev. events (snd (snd (hitEnemies b es w))) = events w @ ev \<and>
        (SetGameState VICTORY \<in> set ev \<longrightarrow> bossKilled es (fst (snd (hitEnemies b es w))))"
proof (induction es)
  case Nil
  show ?case by simp
next
  case (Cons e es)
  show ?case
  proof (cases "\<not> isDead e \<and> checkCollision b e")
    case True
    then have "\<not> isDead e" by simp
    from hitEnemy_victory[OF this, of w] True show ?thesis
      by (auto simp add: case_prod_beta)
  next
    case False
    with Cons show ?thesis
      by (auto simp add: case_prod_beta)
  qed
qed

lemma same_enemies_victory:
  "enemies b = enemies a \<Longrightarrow>
   \<exists>ev. events b = events a @ ev \<and> SetGameState VICTORY \<notin> set ev \<Longrightarrow> victoryByKill a b"
  by (auto simp add: victoryByKill_def sameRoster_refl)

lemma events_handlePlayerDeath_no_victory:
  "\<exists>ev. events (handlePlayerDeath w) = events w @ ev \<and> SetGameState VICTORY \<notin> set ev"
  by (simp add: handlePlayerDeath_def Let_def)

lemma bulletStep_victory: "victoryByKill w (snd (bulletStep c b w))"
proof -
  have death: "victoryByKill w (handlePlayerDeath w)"
    by (rule same_enemies_victory) (simp_all add: events_handlePlayerDeath_no_victory)
  from hitEnemies_victory[of "moveBullet b" "enemies w" w]
    hitEnemies_tally[of "enemies w" "moveBullet b" w]
  have "victoryByKill w ((snd (snd (hitEnemies (moveBullet b) (enemies w) w)))
                    \<lparr>enemies := fst (snd (hitEnemies (moveBullet b) (enemies w) w))\<rparr>)"
    by (simp add: victoryByKill_def)
  with death show ?thesis
    by (simp add: bulletStep_def Let_def case_prod_beta victoryByKill_refl)
qed

lemma bulletsUpdate_victory: "victoryByKill w (bulletsUpdate c w)"
proof -
  have "victoryByKill w (snd (bulletsLoop c (bullets w) w))"
    by (rule bulletsLoop_steps[of victoryByKill, OF victoryByKill_refl victoryByKill_trans
          bulletStep_victory])
  then show ?thesis by (simp add: bulletsUpdate_def case_prod_beta victoryByKill_def)
qed

lemma enemyStep_no_victory:
  "enemies (snd (enemyStep c e w)) = enemies w \<and>
   (\<exists>ev. events (snd (enemyStep c e w)) = events w @ ev \<and> SetGameState VICTORY \<notin> set ev)"
proof -
  have a: "enemies (snd (enemyActive c e w)) = enemies w"
    "events (snd (enemyActive c e w)) = events w"
    by (simp_all add: enemyActive_def enemyShooting_def Let_def)
  show ?thesis
    using events_handlePlayerDeath_no_victory[of "snd (enemyActive c e w)"]
    by (simp add: enemyStep_def case_prod_beta a)
qed

lemma enemiesUpdate_victory: "victoryByKill w (enemiesUpdate c w)"
proof -
  let ?P = "\<lambda>a b. enemies b = enemies a \<and>
                  (\<exists>ev. events b = events a @ ev \<and> SetGameState VICTORY \<notin> set ev)"
  have step: "?P v (snd (enemyStep c e v))" for e v
    by (rule enemyStep_no_victory)
  have "?P w (snd (enemiesLoop c (enemies w) w))"
  proof (rule enemiesLoop_steps[of ?P])
    show "?P v v" for v by simp
    show "?P a d" if "?P a b" "?P b d" for a b d
    proof -
      from that obtain ev1 ev2 where "events b = events a @ ev1" "SetGameState VICTORY \<notin> set ev1"
        "events d = events b @ ev2" "SetGameState VICTORY \<notin> set ev2" by blast
      then have "events d = events a @ (ev1 @ ev2) \<and> SetGameState VICTORY \<notin> set (ev1 @ ev2)"
        by simp
      with that show ?thesis by metis
    qed
    show "?P v (snd (enemyStep c e v))" for e v by (rule step)
  qed
  moreover note unchanged_roster[OF enemiesLoop_roster[of "enemies w" c w]]
  ultimately show ?thesis
    by (auto simp add: enemiesUpdate_def case_prod_beta victoryByKill_def)
qed

lemma victoryByKill_sections:
  "victoryByKill w (particlesUpdate (enemiesUpdate c (bulletsUpdate c
           (shooting c i (pitfall c (playerPhysics c i (w\<lparr>tick := tick w + 1\<rparr>)))))))"
proof (rule sections_steps[of victoryByKill])
  show "victoryByKill v v" for v by (rule victoryByKill_refl)
  show "victoryByKill a d" if "victoryByKill a b" "victoryByKill b d" for a b d
    using that by (rule victoryByKill_trans)
  show "victoryByKill v (v\<lparr>tick := t\<rparr>)" for v t by (rule same_enemies_victory) simp_all
  show "victoryByKill v (playerPhysics c i v)" for v by (rule same_enemies_victory) simp_all
  show "victoryByKill v (pitfall c v)" for v
    by (rule same_enemies_victory) (simp_all add: pitfall_def events_handlePlayerDeath_no_victory)
  show "victoryByKill v (shooting c i v)" for v by (rule same_enemies_victory) simp_all
  show "victoryByKill v (bulletsUpdate c v)" for v by (rule bulletsUpdate_victory)
  show "victoryByKill v (enemiesUpdate c v)" for v by (rule enemiesUpdate_victory)
  show "victoryByKill v (particlesUpdate v)" for v by (rule same_enemies_victory) simp_all
qed

lemma victoryByKill_update: "victoryByKill w (update c g i w)"
proof (cases "g = PLAYING")
  case True
  from victoryByKill_sections[of w c i] show ?thesis
    unfolding True update_playing by (simp add: victoryByKill_def)
next
  case False
  then show ?thesis by (simp add: update_not_playing victoryByKill_refl)
qed

lemma step_log:
  obtains ev where "events (update c g i w) = events w @ ev"
    and "drop (length (events w)) (events (update c g i w)) = ev"
    and "bossKilled (enemies w) (enemies (update c g i w)) \<longleftrightarrow> SetGameState VICTORY \<in> set ev"
    and "\<forall>s. SetGameState s \<in> set ev \<longrightarrow> s = VICTORY \<or> s = GAME_OVER"
    and "SetGameState GAME_OVER \<in> set ev \<longleftrightarrow>
           hp (player (update c g i w)) < hp (player w) \<and> hp (player (update c g i w)) \<le> 0"
proof -
  from terminalCalls_update[of w c g i] obtain ev where t:
    "events (update c g i w) = events w @ ev"
    "\<forall>s. SetGameState s \<in> set ev \<longrightarrow> s = VICTORY \<or> s = GAME_OVER"
    "SetGameState GAME_OVER \<in> set ev \<longrightarrow>
       hp (player (update c g i w)) < hp (player w) \<and> hp (player (update c g i w)) \<le> 0"
    unfolding terminalCalls_def by blast
  from tally_update[of w c g i] t(1)
  have a: "bossKilled (enemies w) (enemies (update c g i w)) \<longrightarrow> SetGameState VICTORY \<in> set ev"
    unfolding tally_def by auto
  from victoryByKill_update[of w c g i] t(1)
  have b: "SetGameState VICTORY \<in> set ev \<longrightarrow> bossKilled (enemies w) (enemies (update c g i w))"
    unfolding victoryByKill_def by auto
  from fatalSignalled_update[of w c g i] t(1)
  have d: "hp (player (update c g i w)) < hp (player w) \<and> hp (player (update c g i w)) \<le> 0
             \<longrightarrow> SetGameState GAME_OVER \<in> set ev"
    unfolding fatalSignalled_def by auto
  from t(1) have "drop (length (events w)) (events (update c g i w)) = ev" by simp
  with t a b d that show thesis by blast
qed

lemma victory_state:
  assumes "bossKilled (enemies w) (enemies (update c g i w))"
  shows "SetGameState VICTORY \<in> set (drop (length (events w)) (events (update c g i w))) \<and>
         (gameStateAfter g (drop (length (events w)) (events (update c g i w))) = VICTORY \<or>
          gameStateAfter g (drop (length (events w)) (events (update c g i w))) = GAME_OVER) \<and>
         (0 < hp (player (update c g i w)) \<or> hp (player (update c g i w)) = hp (player w) \<longrightarrow>
          gameStateAfter g (drop (length (events w)) (events (update c g i w))) = VICTORY)"
proof -
  obtain ev where ev: "drop (length (events w)) (events (update c g i w)) = ev"
    "bossKilled (enemies w) (enemies (update c g i w)) \<longleftrightarrow> SetGameState VICTORY \<in> set ev"
    "\<forall>s. SetGameState s \<in> set ev \<longrightarrow> s = VICTORY \<or> s = GAME_OVER"
    "SetGameState GAME_OVER \<in> set ev \<longleftrightarrow>
           hp (player (update c g i w)) < hp (player w) \<and> hp (player (update c g i w)) \<le> 0"
    by (rule step_log[of c g i w])
  from assms ev(2) have v: "SetGameState VICTORY \<in> set ev" by simp
  from v ev(3) have two: "gameStateAfter g ev = VICTORY \<or> gameStateAfter g ev = GAME_OVER"
    by (rule gameStateAfter_only)
  have one: "gameStateAfter g ev = VICTORY"
    if "0 < hp (player (update c g i w)) \<or> hp (player (update c g i w)) = hp (player w)"
  proof -
    from that ev(4) have "SetGameState GAME_OVER \<notin> set ev" by auto
    with ev(3) have "\<forall>t. SetGameState t \<in> set ev \<longrightarrow> t = VICTORY" by blast
    with v show ?thesis by (rule gameStateAfter_single)
  qed
  from v two one show ?thesis unfolding ev(1) by blast
qed

lemma game_over_state:
  assumes "hp (player (update c g i w)) < hp (player w)" and "hp (player (update c g i w)) \<le> 0"
  shows "SetGameState GAME_OVER \<in> set (drop (length (events w)) (events (update c g i w))) \<and>
         (gameStateAfter g (drop (length (events w)) (events (update c g i w))) = GAME_OVER \<or>
          gameStateAfter g (drop (length (events w)) (events (update c g i w))) = VICTORY) \<and>
         (\<not> bossKilled (enemies w) (enemies (update c g i w)) \<longrightarrow>
          gameStateAfter g (drop (length (events w)) (events (update c g i w))) = GAME_OVER)"
proof -
  obtain ev where ev: "drop (length (events w)) (events (update c g i w)) = ev"
    "bossKilled (enemies w) (enemies (update c g i w)) \<longleftrightarrow> SetGameState VICTORY \<in> set ev"
    "\<forall>s. SetGameState s \<in> set ev \<longrightarrow> s = VICTORY \<or> s = GAME_OVER"
    "SetGameState GAME_OVER \<in> set ev \<longleftrightarrow>
           hp (player (update c g i w)) < hp (player w) \<and> hp (player (update c g i w)) \<le> 0"
    by (rule step_log[of c g i w])
  from assms ev(4) have v: "SetGameState GAME_OVER \<in> set ev" by simp
  from ev(3) have "\<forall>s. SetGameState s \<in> set ev \<longrightarrow> s = GAME_OVER \<or> s = VICTORY" by blast
  with v have two: "gameStateAfter g ev = GAME_OVER \<or> gameStateAfter g ev = VICTORY"
    by (rule gameStateAfter_only)
  have one: "gameStateAfter g ev = GAME_OVER"
    if "\<not> bossKilled (enemies w) (enemies (update c g i w))"
  proof -
    from that ev(2) have "SetGameState VICTORY \<notin> set ev" by simp
    with ev(3) have "\<forall>t. SetGameState t \<in> set ev \<longrightarrow> t = GAME_OVER" by blast
    with v show ?thesis by (rule gameStateAfter_single)
  qed
  from v two one show ?thesis unfolding ev(1) by blast
qed

lemma no_boss_no_kill: "\<forall>e \<in> set es. etype e \<noteq> Boss \<Longrightarrow> \<not> bossKilled es es'"
  by (induction es es' rule: bossKilled.induct) simp_all

lemma duelWorld_step:
  "enemies (update exampleConstants PLAYING noInputs duelWorld) =
     [\<lparr>x = 500, y = 300, width = 60, height = 80, vx = 0, vy = 0, isDead = True,
       direction = Left, shootCooldown = 60, hp = 0, etype = Boss\<rparr>]"
  "events (update exampleConstants PLAYING noInputs duelWorld) =
     [SetScore 1000, SetGameState VICTORY, SetLives 0, SetGameState GAME_OVER]"
  "hp (player (update exampleConstants PLAYING noInputs duelWorld)) = 0"
  by (simp_all add: step_defs example_defs Let_def eval_nat_numeral
      cong: let_weak_cong prod.case_cong_weak option.case_cong_weak)

lemma lateVictoryWorld_step:
  "events (update exampleConstants PLAYING noInputs lateVictoryWorld) =
     [SetLives 0, SetGameState GAME_OVER, SetScore 1000, SetGameState VICTORY]"
  "hp (player (update exampleConstants PLAYING noInputs lateVictoryWorld)) = 0"
  by (simp_all add: step_defs example_defs Let_def eval_nat_numeral
      cong: let_weak_cong prod.case_cong_weak option.case_cong_weak)

text \<open>
  C2, as stated, fails in its last part: the step is not cut short by the call of
  \<^verbatim>\<open>setGameState(VICTORY)\<close>, so a death of the player later in the same step calls
  \<^verbatim>\<open>setGameState(GAME_OVER)\<close> after it. In \<open>duelWorld\<close> the player's bullet kills the
  boss and then the boss's bullet, at the lower index, takes the player's last life; the
  calls of the step are \<^verbatim>\<open>setScore(1000)\<close>, \<^verbatim>\<open>setGameState(VICTORY)\<close>,
  \<^verbatim>\<open>setLives(0)\<close>, \<^verbatim>\<open>setGameState(GAME_OVER)\<close>, and the state they leave is
  \<^verbatim>\<open>GAME_OVER\<close>.
\<close>

theorem victory_overridden:
  "\<not> isDead (hd (enemies duelWorld)) \<and> etype (hd (enemies duelWorld)) = Boss \<and>
   isDead (hd (enemies (update exampleConstants PLAYING noInputs duelWorld))) \<and>
   bossKilled (enemies duelWorld) (enemies (update exampleConstants PLAYING noInputs duelWorld)) \<and>
   events duelWorld = [] \<and>
   events (update exampleConstants PLAYING noInputs duelWorld) =
     [SetScore 1000, SetGameState VICTORY, SetLives 0, SetGameState GAME_OVER] \<and>
   gameStateAfter PLAYING (drop (length (events duelWorld))
     (events (update exampleConstants PLAYING noInputs duelWorld))) = GAME_OVER"
proof -
  have a: "enemies duelWorld =
     [\<lparr>x = 500, y = 300, width = 60, height = 80, vx = 0, vy = 0, isDead = False,
       direction = Left, shootCooldown = 60, hp = 1, etype = Boss\<rparr>]"
    "events duelWorld = []"
    by (simp_all add: example_defs)
  show ?thesis unfolding a duelWorld_step by simp
qed

text \<open>
  C2, amended. The score never decreases, over one step and over any number of steps.
  What a step adds to it is exactly 100 for every runner or turret and 1000 for every
  boss that was not dead before the step and is dead after it. If a boss was killed in
  the step, \<^verbatim>\<open>setGameState(VICTORY)\<close> is among the calls logged during that same step,
  and the state that the calls of the step leave is \<^verbatim>\<open>VICTORY\<close> or \<^verbatim>\<open>GAME_OVER\<close>; it
  is \<^verbatim>\<open>VICTORY\<close> whenever the player's \<open>hp\<close> is positive after the step or was not
  lowered in it. For the single hit of a player's bullet on an enemy that is not dead:
  \<open>hp\<close> goes down by 1, the enemy is dead afterwards exactly when \<open>hp\<close> is then
  \<open>\<le> 0\<close>, the score grows by exactly 1000 (boss) or 100 (runner, turret) in that case
  and not at all otherwise, and for the boss the calls logged are \<^verbatim>\<open>setScore\<close> with the
  new score and \<^verbatim>\<open>setGameState(VICTORY)\<close>.
\<close>

theorem score_and_victory:
  "score (player w) \<le> score (player (update c g i w)) \<and>
   score (player w) \<le> score (player (steps c ss w)) \<and>
   score (player (update c g i w)) =
     score (player w) + scoreDue (enemies w) (enemies (update c g i w)) \<and>
   (bossKilled (enemies w) (enemies (update c g i w)) \<longrightarrow>
      SetGameState VICTORY \<in> set (drop (length (events w)) (events (update c g i w))) \<and>
      (gameStateAfter g (drop (length (events w)) (events (update c g i w))) = VICTORY \<or>
       gameStateAfter g (drop (length (events w)) (events (update c g i w))) = GAME_OVER) \<and>
      (0 < hp (player (update c g i w)) \<or> hp (player (update c g i w)) = hp (player w) \<longrightarrow>
       gameStateAfter g (drop (length (events w)) (events (update c g i w))) = VICTORY)) \<and>
   (\<not> isDead e \<longrightarrow>
      hp (fst (hitEnemy e w)) = hp e - 1 \<and>
      isDead (fst (hitEnemy e w)) = (hp e - 1 \<le> 0) \<and>
      score (player (snd (hitEnemy e w))) =
        score (player w) +
          (if hp e - 1 \<le> 0 then (if etype e = Boss then 1000 else 100) else 0) \<and>
      (hp e - 1 \<le> 0 \<and> etype e = Boss \<longrightarrow>
         events (snd (hitEnemy e w)) =
           events w @ [SetScore (score (player w) + 1000), SetGameState VICTORY]))"
proof -
  from tally_update[of w c g i]
  have t: "score (player (update c g i w)) =
       score (player w) + scoreDue (enemies w) (enemies (update c g i w))"
    unfolding tally_def by blast
  have h: "hp (fst (hitEnemy e w)) = hp e - 1 \<and>
      isDead (fst (hitEnemy e w)) = (hp e - 1 \<le> 0) \<and>
      score (player (snd (hitEnemy e w))) =
        score (player w) +
          (if hp e - 1 \<le> 0 then (if etype e = Boss then 1000 else 100) else 0) \<and>
      (hp e - 1 \<le> 0 \<and> etype e = Boss \<longrightarrow>
         events (snd (hitEnemy e w)) =
           events w @ [SetScore (score (player w) + 1000), SetGameState VICTORY])"
    if "\<not> isDead e"
    using that by (simp add: hitEnemy_def Let_def killReward_def)
  from t h victory_state[of w c g i] score_update[of w c g i] score_steps[of w c ss]
  show ?thesis by blast
qed

theorem score_and_victory_witness:
  "bossKilled (enemies bossWorld) (enemies (update exampleConstants PLAYING noInputs bossWorld)) \<and>
   scoreDue (enemies bossWorld) (enemies (update exampleConstants PLAYING noInputs bossWorld)) = 1000 \<and>
   score (player bossWorld) = 0 \<and>
   score (player (update exampleConstants PLAYING noInputs bossWorld)) = 1000 \<and>
   SetGameState VICTORY \<in> set (drop (length (events bossWorld))
      (events (update exampleConstants PLAYING noInputs bossWorld))) \<and>
   hp (player (update exampleConstants PLAYING noInputs bossWorld)) = hp (player bossWorld) \<and>
   gameStateAfter PLAYING (drop (length (events bossWorld))
      (events (update exampleConstants PLAYING noInputs bossWorld))) = VICTORY \<and>
   \<not> isDead (hd (enemies bossWorld)) \<and>
   isDead (fst (hitEnemy (hd (enemies bossWorld)) bossWorld)) \<and>
   score (player (snd (hitEnemy (hd (enemies bossWorld)) bossWorld))) = 1000"
proof -
  have a: "enemies bossWorld =
     [\<lparr>x = 500, y = 300, width = 60, height = 80, vx = 0, vy = 0, isDead = False,
       direction = Left, shootCooldown = 60, hp = 1, etype = Boss\<rparr>]"
    "score (player bossWorld) = 0" "events bossWorld = []"
    by (simp_all add: example_defs)
  have b: "bossKilled (enemies bossWorld)
             (enemies (update exampleConstants PLAYING noInputs bossWorld))"
    "scoreDue (enemies bossWorld)
             (enemies (update exampleConstants PLAYING noInputs bossWorld)) = 1000"
    unfolding a bossWorld_step by simp_all
  have d: "hp (player (update exampleConstants PLAYING noInputs bossWorld)) = hp (player bossWorld)"
    by (simp add: step_defs example_defs Let_def eval_nat_numeral
      cong: let_weak_cong prod.case_cong_weak option.case_cong_weak)
  from score_and_victory[of bossWorld exampleConstants PLAYING noInputs "[]"
      "hd (enemies bossWorld)"] a b d
  show ?thesis by simp
qed

text \<open>
  C3, as stated, fails in two places. A death that brings \<open>hp\<close> to 0 does not set
  \<open>invincibleTimer\<close> and does not end the step, so a later damage event of the same
  step is processed as well: in \<open>lastLifeWorld\<close> the player has one life and two
  runners overlap the player; one step logs \<^verbatim>\<open>setLives(0)\<close>, \<^verbatim>\<open>setGameState(GAME_OVER)\<close>
  for the first touch and then \<^verbatim>\<open>setLives(-1)\<close>, \<^verbatim>\<open>setGameState(GAME_OVER)\<close> for the
  second, and leaves \<open>hp = -1\<close>. And the state the step leaves need not be
  \<^verbatim>\<open>GAME_OVER\<close>: in \<open>lateVictoryWorld\<close> the boss's bullet takes the last life and then
  the player's bullet, at the lower index, kills the boss; the calls are \<^verbatim>\<open>setLives(0)\<close>,
  \<^verbatim>\<open>setGameState(GAME_OVER)\<close>, \<^verbatim>\<open>setScore(1000)\<close>, \<^verbatim>\<open>setGameState(VICTORY)\<close>, and the
  state they leave is \<^verbatim>\<open>VICTORY\<close>, with \<open>hp = 0\<close>.
\<close>

theorem damage_after_game_over:
  "hp (player lastLifeWorld) = 1 \<and>
   invincibleTimer (player lastLifeWorld) = 0 \<and>
   events lastLifeWorld = [] \<and>
   events (update exampleConstants PLAYING noInputs lastLifeWorld) =
     [SetLives 0, SetGameState GAME_OVER, SetLives (-1), SetGameState GAME_OVER] \<and>
   hp (player (update exampleConstants PLAYING noInputs lastLifeWorld)) = -1 \<and>
   hp (player lateVictoryWorld) = 1 \<and>
   events lateVictoryWorld = [] \<and>
   events (update exampleConstants PLAYING noInputs lateVictoryWorld) =
     [SetLives 0, SetGameState GAME_OVER, SetScore 1000, SetGameState VICTORY] \<and>
   hp (player (update exampleConstants PLAYING noInputs lateVictoryWorld)) = 0 \<and>
   gameStateAfter PLAYING (drop (length (events lateVictoryWorld))
     (events (update exampleConstants PLAYING noInputs lateVictoryWorld))) = VICTORY"
  unfolding lastLifeWorld_step lateVictoryWorld_step by (simp add: example_defs)

text \<open>
  C3, amended. An accepted death that brings \<open>hp\<close> to \<open>\<le> 0\<close> calls
  \<^verbatim>\<open>setLives\<close> and then \<^verbatim>\<open>setGameState(GAME_OVER)\<close>, and the respawn logic does not
  run for it: of the player only \<open>hp\<close> changes (position, velocity and
  \<open>invincibleTimer\<close> stay as they were). The handler does not shield the player after
  such a death: a second call is accepted again and lowers \<open>hp\<close> once more. For a whole
  step: whenever \<open>hp\<close> is lower after the step than before and \<open>\<le> 0\<close>,
  \<^verbatim>\<open>setGameState(GAME_OVER)\<close> is among the calls logged during that step, and the state
  that the calls of the step leave is \<^verbatim>\<open>GAME_OVER\<close> or \<^verbatim>\<open>VICTORY\<close>; it is
  \<^verbatim>\<open>GAME_OVER\<close> unless a boss was killed in that step.
\<close>

theorem fatal_damage:
  "(invincibleTimer (player w) \<le> 0 \<and> hp (player w) - 1 \<le> 0 \<longrightarrow>
      events (handlePlayerDeath w) =
        events w @ [SetLives (hp (player w) - 1), SetGameState GAME_OVER] \<and>
      player (handlePlayerDeath w) = (player w)\<lparr>hp := hp (player w) - 1\<rparr> \<and>
      hp (player (handlePlayerDeath (handlePlayerDeath w))) = hp (player w) - 2) \<and>
   (hp (player (update c g i w)) < hp (player w) \<and> hp (player (update c g i w)) \<le> 0 \<longrightarrow>
      SetGameState GAME_OVER \<in> set (drop (length (events w)) (events (update c g i w))) \<and>
      (gameStateAfter g (drop (length (events w)) (events (update c g i w))) = GAME_OVER \<or>
       gameStateAfter g (drop (length (events w)) (events (update c g i w))) = VICTORY) \<and>
      (\<not> bossKilled (enemies w) (enemies (update c g i w)) \<longrightarrow>
       gameStateAfter g (drop (length (events w)) (events (update c g i w))) = GAME_OVER))"
proof -
  have "events (handlePlayerDeath w) =
        events w @ [SetLives (hp (player w) - 1), SetGameState GAME_OVER] \<and>
      player (handlePlayerDeath w) = (player w)\<lparr>hp := hp (player w) - 1\<rparr> \<and>
      hp (player (handlePlayerDeath (handlePlayerDeath w))) = hp (player w) - 2"
    if "invincibleTimer (player w) \<le> 0 \<and> hp (player w) - 1 \<le> 0"
    using that by (simp add: handlePlayerDeath_def Let_def respawn_def)
  with game_over_state[of c g i w] show ?thesis by blast
qed

theorem fatal_damage_witness:
  "invincibleTimer (player lastLifeWorld) \<le> 0 \<and> hp (player lastLifeWorld) - 1 \<le> 0 \<and>
   events (handlePlayerDeath lastLifeWorld) = [SetLives 0, SetGameState GAME_OVER] \<and>
   player (handlePlayerDeath lastLifeWorld) = initialPlayer\<lparr>hp := 0\<rparr> \<and>
   hp (player (handlePlayerDeath (handlePlayerDeath lastLifeWorld))) = -1 \<and>
   hp (player (update exampleConstants PLAYING noInputs lastLifeWorld)) < hp (player lastLifeWorld) \<and>
   hp (player (update exampleConstants PLAYING noInputs lastLifeWorld)) \<le> 0 \<and>
   SetGameState GAME_OVER \<in> set (drop (length (events lastLifeWorld))
      (events (update exampleConstants PLAYING noInputs lastLifeWorld))) \<and>
   \<not> bossKilled (enemies lastLifeWorld)
      (enemies (update exampleConstants PLAYING noInputs lastLifeWorld)) \<and>
   gameStateAfter PLAYING (drop (length (events lastLifeWorld))
      (events (update exampleConstants PLAYING noInputs lastLifeWorld))) = GAME_OVER"
proof -
  have a: "invincibleTimer (player lastLifeWorld) \<le> 0" "hp (player lastLifeWorld) = 1"
    "events lastLifeWorld = []" "player lastLifeWorld = initialPlayer\<lparr>hp := 1\<rparr>"
    by (simp_all add: example_defs)
  have "\<forall>e \<in> set (enemies lastLifeWorld). etype e \<noteq> Boss"
    by (simp add: example_defs)
  then have b: "\<not> bossKilled (enemies lastLifeWorld)
      (enemies (update exampleConstants PLAYING noInputs lastLifeWorld))"
    by (rule no_boss_no_kill)
  from fatal_damage[of lastLifeWorld exampleConstants PLAYING noInputs] a b lastLifeWorld_step(1)
  show ?thesis by simp
qed

end
